theory Spec2Isabelle
  imports Main "HOL-Library.Word"
begin

section \<open>Go values, results and formatting\<close>

text \<open>
  The client is written in Go. An \<open>int\<close> is a 64-bit two's complement word; a
  \<open>string\<close> and a \<open>[]byte\<close> are both lists of bytes. A Go function that returns
  \<open>(T, error)\<close> has four ways to end, and the model keeps them apart:
  \<^item> \<open>Ok v\<close>: it returns \<open>v\<close> and a nil error;
  \<^item> \<open>Err msg\<close>: it returns a non-nil error whose text is \<open>msg\<close>
    (\<open>fmt.Errorf\<close> builds the text, so wrapping an error is concatenation);
  \<^item> \<open>Fatal msg\<close>: \<open>log.Fatalf\<close> was called, the process exits with status 1;
  \<^item> \<open>Panic msg\<close>: a run-time panic, here always a nil pointer dereference or a
    negative length given to \<open>make\<close>.
\<close>

type_synonym goint = "64 word"
type_synonym bytes = string

datatype 'a result = Ok 'a | Err string | Fatal string | Panic string

definition nil_deref :: string where
  "nil_deref = ''runtime error: invalid memory address or nil pointer dereference''"

text \<open>The verb \<open>%d\<close> of \<open>fmt\<close>: a decimal numeral, with a minus sign when negative.\<close>

fun show_nat :: "nat \<Rightarrow> string" where
  "show_nat n =
     (if n < 10 then [''0123456789'' ! n]
      else show_nat (n div 10) @ [''0123456789'' ! (n mod 10)])"

declare show_nat.simps [simp del]

definition show_int :: "int \<Rightarrow> string" where
  "show_int i = (if i < 0 then CHR ''-'' # show_nat (nat (- i)) else show_nat (nat i))"

definition fmt_d :: "goint \<Rightarrow> string" where
  "fmt_d x = show_int (sint x)"

text \<open>
  \<open>strconv.Atoi\<close> of the Go library: an optional sign, then one or more decimal
  digits, and the value must fit an \<open>int\<close>. The error text is the library's, with the
  input quoted plainly.
\<close>

definition is_digit :: "char \<Rightarrow> bool" where
  "is_digit c = (c \<in> set ''0123456789'')"

fun digits_value :: "int \<Rightarrow> string \<Rightarrow> int" where
  "digits_value n [] = n"
| "digits_value n (ch # cs) = digits_value (n * 10 + (of_char ch - 48)) cs"

definition NumError :: "string \<Rightarrow> string \<Rightarrow> string" where
  "NumError s why = ''strconv.Atoi: parsing '' @ [CHR 0x22] @ s @ [CHR 0x22] @ '': '' @ why"

definition Atoi :: "string \<Rightarrow> string + goint" where
  "Atoi s0 =
     (let s = (if s0 \<noteq> [] \<and> (hd s0 = CHR ''-'' \<or> hd s0 = CHR ''+'') then tl s0 else s0) in
      if s = [] \<or> \<not> list_all is_digit s then Inl (NumError s0 ''invalid syntax'')
      else
        let n = (if hd s0 = CHR ''-'' then - digits_value 0 s else digits_value 0 s) in
        if n < - (2 ^ 63) \<or> 2 ^ 63 - 1 < n then Inl (NumError s0 ''value out of range'')
        else Inr (word_of_int n))"

section \<open>Wire models and the session\<close>

text \<open>
  \<open>filefreezer.FileInfo\<close> and the request and response shapes of the \<open>models\<close>
  package, with the fields this code reads or writes.
\<close>

record FileVersionInfo =
  VersionNumber :: goint

record FileInfo =
  FileID :: goint
  FileName :: string
  CurrentVersion :: FileVersionInfo

record FileDeleteVersionsRequest =
  MinVersion :: goint
  MaxVersion :: goint

record FileDeleteVersionsResponse =
  Status :: bool

text \<open>The fields of \<open>command.State\<close> that the request path reads.\<close>

record State =
  HostURI :: string
  AuthToken :: string
  TLSCrt :: string
  TLSKey :: string

section \<open>HTTP and the outside world\<close>

datatype Client = PlainClient | TLSClient string string

record Request =
  Method :: string
  URL :: string
  Authorization :: string
  ContentType :: "string option"
  Body :: "bytes option"

text \<open>
  A response as \<open>RunAuthRequest\<close> sees it: the status line, the status code, and what
  \<open>ioutil.ReadAll\<close> makes of the body (the bytes, or a read error).
\<close>

record Response =
  http_Status :: string
  http_StatusCode :: int
  http_Body :: "string + bytes"

text \<open>
  \<open>client.Do\<close> returns a response and a nil error, or a non-nil error. With the error
  the response is nil (a transport failure: no connection, no answer), except when the
  redirect policy fails, where the last response comes with the error.
\<close>

datatype DoResult = DoResponse Response | DoError "Response option" string

text \<open>
  What an operation does to the outside is recorded in order: a fetch of the catalog
  (\<open>GetAllFileHashes\<close>), a request handed to \<open>client.Do\<close>, a line printed with
  \<open>s.Printf\<close>.
\<close>

datatype Event = CatalogFetch | HttpDo Client Request | Printf string

text \<open>
  The collaborators that are not part of this code: the server (its answers may depend
  on everything that happened before), the catalog fetch and the decryption of the
  session, and the Go library's regular expressions, JSON, TLS and file reading.
\<close>

record World =
  GetAllFileHashes :: "Event list \<Rightarrow> string + FileInfo list"
  DecryptString :: "string \<Rightarrow> string + string"
  regexp_Compile :: "string \<Rightarrow> string + (string \<Rightarrow> bool)"
  json_Marshal :: "FileDeleteVersionsRequest \<Rightarrow> string + bytes"
  json_Unmarshal_DeleteVersions :: "bytes \<Rightarrow> string + FileDeleteVersionsResponse"
  json_Unmarshal_Versions :: "bytes \<Rightarrow> string + FileVersionInfo list"
  json_Unmarshal_MissingChunks :: "bytes \<Rightarrow> string + goint list"
  tls_LoadX509KeyPair :: "string \<Rightarrow> string \<Rightarrow> string option"
  ioutil_ReadFile :: "string \<Rightarrow> string + bytes"
  AppendCertsFromPEM :: "bytes \<Rightarrow> bool"
  http_NewRequest :: "string \<Rightarrow> string \<Rightarrow> string option"
  client_Do :: "Event list \<Rightarrow> Client \<Rightarrow> Request \<Rightarrow> DoResult"

section \<open>The authenticated request dispatcher\<close>

definition getHTTPClient :: "World \<Rightarrow> State \<Rightarrow> Client result" where
  "getHTTPClient w s =
     (if TLSCrt s \<noteq> [] \<and> TLSKey s \<noteq> [] then
        (case tls_LoadX509KeyPair w (TLSCrt s) (TLSKey s) of
           Some err \<Rightarrow> Err (''unable to load cert: '' @ err)
         | None \<Rightarrow>
             (case ioutil_ReadFile w (TLSCrt s) of
                Inl err \<Rightarrow>
                  Err (''Failed to load the certificate file '' @ TLSCrt s @ '': '' @ err)
              | Inr pemData \<Rightarrow>
                  if AppendCertsFromPEM w pemData then Ok (TLSClient (TLSCrt s) (TLSKey s))
                  else Err ''couldn't load PEM data for HTTPS client''))
      else Ok PlainClient)"

text \<open>
  \<open>buildAuthRequest\<close> drops the error of \<open>http.NewRequest\<close>; when that call fails
  the request is nil and adding the header panics.
\<close>

definition buildAuthRequest ::
  "World \<Rightarrow> State \<Rightarrow> string \<Rightarrow> string \<Rightarrow> string \<Rightarrow> bytes option \<Rightarrow> (Client \<times> Request) result" where
  "buildAuthRequest w s target method token bodyBytes =
     (case getHTTPClient w s of
        Err e \<Rightarrow> Err e
      | Fatal m \<Rightarrow> Fatal m
      | Panic m \<Rightarrow> Panic m
      | Ok client \<Rightarrow>
          (case http_NewRequest w method target of
             Some err \<Rightarrow> Panic nil_deref
           | None \<Rightarrow>
               Ok (client,
                   \<lparr>Method = method, URL = target, Authorization = ''Bearer '' @ token,
                    ContentType = None, Body = bodyBytes\<rparr>)))"

text \<open>
  The body handed to \<open>RunAuthRequest\<close> is an \<open>interface{}\<close>: nil, a byte slice
  (itself possibly nil), or a value to be marshalled, which in this code is always a
  \<open>FileDeleteVersionsRequest\<close>.
\<close>

datatype ReqBody = NilBody | ByteSlice "bytes option" | DeleteVersionsBody FileDeleteVersionsRequest

definition status_error :: "string \<Rightarrow> string \<Rightarrow> string \<Rightarrow> string \<Rightarrow> string" where
  "status_error method target status detail =
     ''Failed to make the HTTP '' @ method @ '' request to '' @ target @
     '' (status: '' @ status @ ''): '' @ detail"

text \<open>
  After \<open>client.Do\<close>: the error branch reads \<open>resp.Status\<close> without looking whether
  \<open>resp\<close> is nil.
\<close>

definition handleResponse :: "string \<Rightarrow> string \<Rightarrow> DoResult \<Rightarrow> bytes result" where
  "handleResponse method target d =
     (case d of
        DoError None err \<Rightarrow> Panic nil_deref
      | DoError (Some resp) err \<Rightarrow> Err (status_error method target (http_Status resp) err)
      | DoResponse resp \<Rightarrow>
          (case http_Body resp of
             Inl err \<Rightarrow> Err (''Failed to read the response body from '' @ target @ '': '' @ err)
           | Inr body \<Rightarrow>
               if http_StatusCode resp \<noteq> 200
               then Err (status_error method target (http_Status resp) body)
               else Ok body))"

definition RunAuthRequest ::
  "World \<Rightarrow> State \<Rightarrow> Event list \<Rightarrow> string \<Rightarrow> string \<Rightarrow> string \<Rightarrow> ReqBody
     \<Rightarrow> bytes result \<times> Event list" where
  "RunAuthRequest w s tr target method token reqBody =
     (case (case reqBody of
              NilBody \<Rightarrow> Inr (None, False)
            | ByteSlice b \<Rightarrow> Inr (b, True)
            | DeleteVersionsBody v \<Rightarrow>
                (case json_Marshal w v of
                   Inl err \<Rightarrow> Inl err
                 | Inr js \<Rightarrow> Inr (Some js, False))) of
        Inl err \<Rightarrow> (Err (''Failed to JSON serialize the data object passed in: '' @ err), tr)
      | Inr (reqBytes, reqBodyIsByteSlice) \<Rightarrow>
          (case buildAuthRequest w s target method token reqBytes of
             Err e \<Rightarrow> (Err e, tr)
           | Fatal m \<Rightarrow> (Fatal m, tr)
           | Panic m \<Rightarrow> (Panic m, tr)
           | Ok (client, req0) \<Rightarrow>
               (let req = (if reqBytes \<noteq> None \<and> \<not> reqBodyIsByteSlice
                           then req0\<lparr>ContentType := Some ''application/json''\<rparr> else req0)
                in (handleResponse method target (client_Do w tr client req),
                    tr @ [HttpDo client req]))))"

section \<open>Files: resolution and removal\<close>

text \<open>
  \<open>GetFileInfoByFilename\<close> fetches the whole catalog, then scans it in order,
  decrypting each stored name.
\<close>

fun findByFilename :: "World \<Rightarrow> string \<Rightarrow> FileInfo list \<Rightarrow> FileInfo result" where
  "findByFilename w filename [] = Err (''could not find the file: '' @ filename)"
| "findByFilename w filename (fi # rest) =
     (case DecryptString w (FileName fi) of
        Inl err \<Rightarrow> Err err
      | Inr decryptedFilename \<Rightarrow>
          if decryptedFilename = filename then Ok fi else findByFilename w filename rest)"

definition GetFileInfoByFilename ::
  "World \<Rightarrow> State \<Rightarrow> Event list \<Rightarrow> string \<Rightarrow> FileInfo result \<times> Event list" where
  "GetFileInfoByFilename w s tr filename =
     (case GetAllFileHashes w tr of
        Inl err \<Rightarrow> (Err (''failed to getall of the file hashes: '' @ err), tr @ [CatalogFetch])
      | Inr allFileInfos \<Rightarrow> (findByFilename w filename allFileInfos, tr @ [CatalogFetch]))"

definition file_target :: "State \<Rightarrow> goint \<Rightarrow> string" where
  "file_target s fileID = HostURI s @ ''/api/file/'' @ fmt_d fileID"

definition versions_target :: "State \<Rightarrow> goint \<Rightarrow> string" where
  "versions_target s fileID = HostURI s @ ''/api/file/'' @ fmt_d fileID @ ''/versions''"

definition removed_file :: "string \<Rightarrow> Event" where
  "removed_file filename = Printf (''Removed file: '' @ filename @ [CHR 0x0A])"

definition RmFile ::
  "World \<Rightarrow> State \<Rightarrow> Event list \<Rightarrow> string \<Rightarrow> bool \<Rightarrow> unit result \<times> Event list" where
  "RmFile w s tr filename dryRun =
     (case GetFileInfoByFilename w s tr filename of
        (Err e, tr1) \<Rightarrow> (Err e, tr1)
      | (Fatal m, tr1) \<Rightarrow> (Fatal m, tr1)
      | (Panic m, tr1) \<Rightarrow> (Panic m, tr1)
      | (Ok fi, tr1) \<Rightarrow>
          if \<not> dryRun then
            (case RunAuthRequest w s tr1 (file_target s (FileID fi)) ''DELETE'' (AuthToken s) NilBody of
               (Err e, tr2) \<Rightarrow> (Err (''Failed to remove the file '' @ filename @ '': '' @ e), tr2)
             | (Fatal m, tr2) \<Rightarrow> (Fatal m, tr2)
             | (Panic m, tr2) \<Rightarrow> (Panic m, tr2)
             | (Ok body, tr2) \<Rightarrow> (Ok (), tr2 @ [removed_file filename]))
          else (Ok (), tr1 @ [removed_file filename]))"

fun RmRxFiles_loop ::
  "World \<Rightarrow> State \<Rightarrow> (string \<Rightarrow> bool) \<Rightarrow> bool \<Rightarrow> Event list \<Rightarrow> FileInfo list
     \<Rightarrow> unit result \<times> Event list" where
  "RmRxFiles_loop w s compiledFilter dryRun tr [] = (Ok (), tr)"
| "RmRxFiles_loop w s compiledFilter dryRun tr (fi # rest) =
     (case DecryptString w (FileName fi) of
        Inl err \<Rightarrow> (Err (''failed to decrypt one of the file names: '' @ err), tr)
      | Inr plaintextFilename \<Rightarrow>
          if compiledFilter plaintextFilename then
            (if \<not> dryRun then
               (case RunAuthRequest w s tr (file_target s (FileID fi)) ''DELETE'' (AuthToken s)
                       NilBody of
                  (Err e, tr1) \<Rightarrow>
                    (Err (''Failed to remove the file '' @ plaintextFilename @ '': '' @ e), tr1)
                | (Fatal m, tr1) \<Rightarrow> (Fatal m, tr1)
                | (Panic m, tr1) \<Rightarrow> (Panic m, tr1)
                | (Ok body, tr1) \<Rightarrow>
                    RmRxFiles_loop w s compiledFilter dryRun
                      (tr1 @ [removed_file plaintextFilename]) rest)
             else RmRxFiles_loop w s compiledFilter dryRun
                    (tr @ [removed_file plaintextFilename]) rest)
          else RmRxFiles_loop w s compiledFilter dryRun tr rest)"

definition RmRxFiles ::
  "World \<Rightarrow> State \<Rightarrow> Event list \<Rightarrow> string \<Rightarrow> bool \<Rightarrow> unit result \<times> Event list" where
  "RmRxFiles w s tr pattern dryRun =
     (case GetAllFileHashes w tr of
        Inl err \<Rightarrow>
          (Err (''could not get all of the files from the server: '' @ err), tr @ [CatalogFetch])
      | Inr allFiles \<Rightarrow>
          (case regexp_Compile w pattern of
             Inl err \<Rightarrow>
               (Err (''failed to compile the regular expression: '' @ err), tr @ [CatalogFetch])
           | Inr compiledFilter \<Rightarrow>
               RmRxFiles_loop w s compiledFilter dryRun (tr @ [CatalogFetch]) allFiles))"

definition RmFileByID ::
  "World \<Rightarrow> State \<Rightarrow> Event list \<Rightarrow> goint \<Rightarrow> unit result \<times> Event list" where
  "RmFileByID w s tr fileID =
     (case RunAuthRequest w s tr (file_target s fileID) ''DELETE'' (AuthToken s) NilBody of
        (Err e, tr1) \<Rightarrow>
          (Err (''Failed to remove the file by file ID ('' @ fmt_d fileID @ ''): '' @ e), tr1)
      | (Fatal m, tr1) \<Rightarrow> (Fatal m, tr1)
      | (Panic m, tr1) \<Rightarrow> (Panic m, tr1)
      | (Ok body, tr1) \<Rightarrow>
          (Ok (), tr1 @ [Printf (''Removed file by ID: '' @ fmt_d fileID @ [CHR 0x0A])]))"

definition GetFileVersions ::
  "World \<Rightarrow> State \<Rightarrow> Event list \<Rightarrow> string \<Rightarrow> FileVersionInfo list result \<times> Event list" where
  "GetFileVersions w s tr filename =
     (case GetFileInfoByFilename w s tr filename of
        (Err e, tr1) \<Rightarrow> (Err e, tr1)
      | (Fatal m, tr1) \<Rightarrow> (Fatal m, tr1)
      | (Panic m, tr1) \<Rightarrow> (Panic m, tr1)
      | (Ok fi, tr1) \<Rightarrow>
          (case RunAuthRequest w s tr1 (versions_target s (FileID fi)) ''GET'' (AuthToken s)
                  NilBody of
             (Err e, tr2) \<Rightarrow>
               (Err (''Failed to get the file versions for '' @ versions_target s (FileID fi) @
                     '': '' @ e), tr2)
           | (Fatal m, tr2) \<Rightarrow> (Fatal m, tr2)
           | (Panic m, tr2) \<Rightarrow> (Panic m, tr2)
           | (Ok body, tr2) \<Rightarrow>
               (case json_Unmarshal_Versions w body of
                  Inl err \<Rightarrow> (Err (''Failed to get the file versions: '' @ err), tr2)
                | Inr versions \<Rightarrow> (Ok versions, tr2))))"

definition GetMissingChunksForFile ::
  "World \<Rightarrow> State \<Rightarrow> Event list \<Rightarrow> goint \<Rightarrow> goint list result \<times> Event list" where
  "GetMissingChunksForFile w s tr fileID =
     (case RunAuthRequest w s tr (file_target s fileID) ''GET'' (AuthToken s) NilBody of
        (Err e, tr1) \<Rightarrow> (Err (''Failed to get the file's missing chunk list: '' @ e), tr1)
      | (Fatal m, tr1) \<Rightarrow> (Fatal m, tr1)
      | (Panic m, tr1) \<Rightarrow> (Panic m, tr1)
      | (Ok body, tr1) \<Rightarrow>
          (case json_Unmarshal_MissingChunks w body of
             Inl err \<Rightarrow> (Err (''Failed to get the file's missing chunk list: '' @ err), tr1)
           | Inr missingChunks \<Rightarrow> (Ok missingChunks, tr1)))"

section \<open>Pruning versions\<close>

definition range_error :: string where
  "range_error =
     ''the maxiumum version number cannot be equal or greater than the current version number''"

definition failed_status :: string where
  "failed_status =
     ''an unknown error caused a failed status to be returned while deleting file versions''"

definition RmFileVersions ::
  "World \<Rightarrow> State \<Rightarrow> Event list \<Rightarrow> string \<Rightarrow> goint \<Rightarrow> goint \<Rightarrow> bool
     \<Rightarrow> unit result \<times> Event list" where
  "RmFileVersions w s tr filename minVersion maxVersion dryRun =
     (case GetFileInfoByFilename w s tr filename of
        (Err e, tr1) \<Rightarrow> (Err e, tr1)
      | (Fatal m, tr1) \<Rightarrow> (Fatal m, tr1)
      | (Panic m, tr1) \<Rightarrow> (Panic m, tr1)
      | (Ok fi, tr1) \<Rightarrow>
          (let putReq = \<lparr>MinVersion = minVersion, MaxVersion = maxVersion\<rparr> in
           if VersionNumber (CurrentVersion fi) \<le>s maxVersion then (Err range_error, tr1)
           else if \<not> dryRun then
             (case RunAuthRequest w s tr1 (versions_target s (FileID fi)) ''DELETE''
                     (AuthToken s) (DeleteVersionsBody putReq) of
                (Err e, tr2) \<Rightarrow>
                  (Err (''Failed to delete the file versions for '' @
                        versions_target s (FileID fi) @ '': '' @ e), tr2)
              | (Fatal m, tr2) \<Rightarrow> (Fatal m, tr2)
              | (Panic m, tr2) \<Rightarrow> (Panic m, tr2)
              | (Ok body, tr2) \<Rightarrow>
                  (case json_Unmarshal_DeleteVersions w body of
                     Inl err \<Rightarrow> (Err (''Failed to delete the file versions: '' @ err), tr2)
                   | Inr r \<Rightarrow> if \<not> Status r then (Err failed_status, tr2) else (Ok (), tr2)))
           else (Ok (), tr1)))"

text \<open>
  The batch prune resolves the maximum version for each matched file: the string
  \<open>H~\<close> stands for the file's current version minus one (the subtraction is Go's, on
  64-bit words); any other string goes through \<open>strconv.Atoi\<close>, and a string that does
  not parse ends the process through \<open>log.Fatalf\<close>.
\<close>

definition removed_versions :: "string \<Rightarrow> goint \<Rightarrow> goint \<Rightarrow> Event" where
  "removed_versions plaintextFilename minVersion maxVersion =
     Printf (plaintextFilename @ '' -- successfully removed versions '' @ fmt_d minVersion @
             '' to '' @ fmt_d maxVersion @ ''.'' @ [CHR 0x0A])"

definition resolveMaxVersion :: "string \<Rightarrow> FileInfo \<Rightarrow> goint result" where
  "resolveMaxVersion maxVersionStr fi =
     (if maxVersionStr = ''H~'' then Ok (VersionNumber (CurrentVersion fi) - 1)
      else
        (case Atoi maxVersionStr of
           Inl err \<Rightarrow> Fatal (''Failed to parse the supplied max version as a number: '' @ err)
         | Inr n \<Rightarrow> Ok n))"

fun RmRxFileVersions_loop ::
  "World \<Rightarrow> State \<Rightarrow> (string \<Rightarrow> bool) \<Rightarrow> goint \<Rightarrow> string \<Rightarrow> bool \<Rightarrow> Event list
     \<Rightarrow> FileInfo list \<Rightarrow> unit result \<times> Event list" where
  "RmRxFileVersions_loop w s compiledFilter minVersion maxVersionStr dryRun tr [] = (Ok (), tr)"
| "RmRxFileVersions_loop w s compiledFilter minVersion maxVersionStr dryRun tr (fi # rest) =
     (case DecryptString w (FileName fi) of
        Inl err \<Rightarrow> (Err (''failed to decrypt one of the file names: '' @ err), tr)
      | Inr plaintextFilename \<Rightarrow>
          if compiledFilter plaintextFilename then
            (case resolveMaxVersion maxVersionStr fi of
               Err e \<Rightarrow> (Err e, tr)
             | Fatal m \<Rightarrow> (Fatal m, tr)
             | Panic m \<Rightarrow> (Panic m, tr)
             | Ok maxVersion \<Rightarrow>
                 if VersionNumber (CurrentVersion fi) \<le>s maxVersion then
                   RmRxFileVersions_loop w s compiledFilter minVersion maxVersionStr dryRun tr rest
                 else if \<not> dryRun then
                   (let putReq = \<lparr>MinVersion = minVersion, MaxVersion = maxVersion\<rparr> in
                    case RunAuthRequest w s tr (versions_target s (FileID fi)) ''DELETE''
                           (AuthToken s) (DeleteVersionsBody putReq) of
                      (Err e, tr1) \<Rightarrow>
                        (Err (''Failed to delete the file versions for '' @ plaintextFilename @
                              '': '' @ e), tr1)
                    | (Fatal m, tr1) \<Rightarrow> (Fatal m, tr1)
                    | (Panic m, tr1) \<Rightarrow> (Panic m, tr1)
                    | (Ok body, tr1) \<Rightarrow>
                        (case json_Unmarshal_DeleteVersions w body of
                           Inl err \<Rightarrow>
                             (Err (''Failed to delete the file versions for '' @
                                   plaintextFilename @ '': '' @ err), tr1)
                         | Inr r \<Rightarrow>
                             if \<not> Status r then (Err failed_status, tr1)
                             else RmRxFileVersions_loop w s compiledFilter minVersion
                                    maxVersionStr dryRun
                                    (tr1 @ [removed_versions plaintextFilename minVersion
                                              maxVersion]) rest))
                 else RmRxFileVersions_loop w s compiledFilter minVersion maxVersionStr dryRun
                        (tr @ [removed_versions plaintextFilename minVersion maxVersion]) rest)
          else RmRxFileVersions_loop w s compiledFilter minVersion maxVersionStr dryRun tr rest)"

definition RmRxFileVersions ::
  "World \<Rightarrow> State \<Rightarrow> Event list \<Rightarrow> string \<Rightarrow> goint \<Rightarrow> string \<Rightarrow> bool
     \<Rightarrow> unit result \<times> Event list" where
  "RmRxFileVersions w s tr pattern minVersion maxVersionStr dryRun =
     (case GetAllFileHashes w tr of
        Inl err \<Rightarrow>
          (Err (''could not get all of the files from the server: '' @ err), tr @ [CatalogFetch])
      | Inr allFiles \<Rightarrow>
          (case regexp_Compile w pattern of
             Inl err \<Rightarrow>
               (Err (''failed to compile the regular expression: '' @ err), tr @ [CatalogFetch])
           | Inr compiledFilter \<Rightarrow>
               RmRxFileVersions_loop w s compiledFilter minVersion maxVersionStr dryRun
                 (tr @ [CatalogFetch]) allFiles))"

section \<open>Reading a file in chunks\<close>

text \<open>
  \<open>io.ReadAtLeast(f, buffer, chunkSize)\<close> with a buffer of \<open>chunkSize\<close> bytes, on what
  is left of the file: it fills the buffer when enough bytes are left; it reports
  \<open>io.ErrUnexpectedEOF\<close> when it read some bytes and then met the end, and \<open>io.EOF\<close>
  when it read none. With a minimum of zero it reads nothing and reports no error.
\<close>

datatype ReadErr = EOF | ErrUnexpectedEOF

definition ReadErr_text :: "ReadErr \<Rightarrow> string" where
  "ReadErr_text e = (case e of EOF \<Rightarrow> ''EOF'' | ErrUnexpectedEOF \<Rightarrow> ''unexpected EOF'')"

definition io_ReadAtLeast :: "bytes \<Rightarrow> nat \<Rightarrow> bytes \<times> ReadErr option" where
  "io_ReadAtLeast f n =
     (if n \<le> length f then (take n f, None)
      else if f = [] then ([], Some EOF)
      else (f, Some ErrUnexpectedEOF))"

text \<open>
  The visitor is a Go closure. What it answers may depend on the calls it has seen, so
  the model hands it the chunks yielded so far next to the chunk number and the chunk.
\<close>

type_synonym eachChunkFunc = "(int \<times> bytes) list \<Rightarrow> int \<Rightarrow> bytes \<Rightarrow> bool \<times> string option"

text \<open>The error checks after the read, in the source's order; \<open>None\<close> goes on to the visitor.\<close>

definition readFailure :: "string \<Rightarrow> int \<Rightarrow> int \<Rightarrow> nat \<Rightarrow> ReadErr option \<Rightarrow> string option" where
  "readFailure filename localChunkCount i readCount err =
     (case err of
        None \<Rightarrow> None
      | Some e \<Rightarrow>
          if e = ErrUnexpectedEOF then
            (if i + 1 \<noteq> localChunkCount
             then Some (''nexpeced EOF while reading the file '' @ filename)
             else None)
          else Some (''an error occured while reading '' @ show_nat readCount @
                     '' bytes from the file '' @ filename @ '': '' @ ReadErr_text e))"

function forEachChunk_loop ::
  "string \<Rightarrow> eachChunkFunc \<Rightarrow> int \<Rightarrow> int \<Rightarrow> int \<Rightarrow> bytes \<Rightarrow> (int \<times> bytes) list
     \<Rightarrow> unit result \<times> (int \<times> bytes) list" where
  "forEachChunk_loop filename eachFunc chunkSize localChunkCount i f yielded =
     (if i < localChunkCount then
        (case io_ReadAtLeast f (nat chunkSize) of
           (clampedBuffer, err) \<Rightarrow>
             (case readFailure filename localChunkCount i (length clampedBuffer) err of
                Some msg \<Rightarrow> (Err msg, yielded)
              | None \<Rightarrow>
                  (case eachFunc yielded i clampedBuffer of
                     (contLoop, Some e) \<Rightarrow> (Err e, yielded @ [(i, clampedBuffer)])
                   | (contLoop, None) \<Rightarrow>
                       if \<not> contLoop then (Ok (), yielded @ [(i, clampedBuffer)])
                       else forEachChunk_loop filename eachFunc chunkSize localChunkCount (i + 1)
                              (drop (nat chunkSize) f) (yielded @ [(i, clampedBuffer)]))))
      else (Ok (), yielded))"
  by pat_completeness auto
termination
  by (relation "measure (\<lambda>(filename, eachFunc, chunkSize, localChunkCount, i, f, yielded).
        nat (localChunkCount - i))") auto

declare forEachChunk_loop.simps [simp del]

definition forEachChunk ::
  "(string \<Rightarrow> string + bytes) \<Rightarrow> int \<Rightarrow> string \<Rightarrow> int \<Rightarrow> eachChunkFunc
     \<Rightarrow> unit result \<times> (int \<times> bytes) list" where
  "forEachChunk os_Open chunkSize filename localChunkCount eachFunc =
     (if chunkSize < 0 then (Panic ''runtime error: makeslice: len out of range'', [])
      else
        (case os_Open filename of
           Inl err \<Rightarrow> (Err (''Failed to open the file '' @ filename @ '': '' @ err), [])
         | Inr content \<Rightarrow>
             forEachChunk_loop filename eachFunc chunkSize localChunkCount 0 content []))"

section \<open>Reading the record of events\<close>

text \<open>The requests handed to \<open>client.Do\<close>, in order, and those among them that mutate.\<close>

fun requests_of :: "Event list \<Rightarrow> Request list" where
  "requests_of [] = []"
| "requests_of (HttpDo client req # evs) = req # requests_of evs"
| "requests_of (CatalogFetch # evs) = requests_of evs"
| "requests_of (Printf line # evs) = requests_of evs"

definition deletes_of :: "Event list \<Rightarrow> Request list" where
  "deletes_of evs = filter (\<lambda>req. Method req = ''DELETE'') (requests_of evs)"

section \<open>Predicates used in the statements\<close>

text \<open>A catalog entry whose stored name decrypts, to a name other than the one sought.\<close>

definition other_name :: "World \<Rightarrow> string \<Rightarrow> FileInfo \<Rightarrow> bool" where
  "other_name w filename fi =
     (case DecryptString w (FileName fi) of Inl err \<Rightarrow> False | Inr d \<Rightarrow> d \<noteq> filename)"

text \<open>The operation came back to its caller, with a value or with an error.\<close>

definition returned :: "'a result \<Rightarrow> bool" where
  "returned r = (case r of Ok v \<Rightarrow> True | Err e \<Rightarrow> True | Fatal m \<Rightarrow> False | Panic m \<Rightarrow> False)"

text \<open>A catalog entry whose stored name decrypts, to a name the pattern does not match.\<close>

definition unmatched :: "World \<Rightarrow> (string \<Rightarrow> bool) \<Rightarrow> FileInfo \<Rightarrow> bool" where
  "unmatched w compiledFilter fi =
     (case DecryptString w (FileName fi) of Inl err \<Rightarrow> False | Inr d \<Rightarrow> \<not> compiledFilter d)"

definition parse_failure :: "string \<Rightarrow> string" where
  "parse_failure err = ''Failed to parse the supplied max version as a number: '' @ err"

section \<open>Example environments\<close>

text \<open>
  Concrete collaborators for the examples below: a catalog given as a list, names stored
  in the clear (only the name \<open>corrupt\<close> fails to decrypt), the single pattern
  \<open>.*\<close>, a plain rendering of the request body, and servers that give the same
  answer to every request.
\<close>

definition ok_response :: "bytes \<Rightarrow> Response" where
  "ok_response body = \<lparr>http_Status = ''200 OK'', http_StatusCode = 200, http_Body = Inr body\<rparr>"

definition error_response :: "bytes \<Rightarrow> Response" where
  "error_response body =
     \<lparr>http_Status = ''500 Internal Server Error'', http_StatusCode = 500, http_Body = Inr body\<rparr>"

definition example_world :: "FileInfo list \<Rightarrow> (Event list \<Rightarrow> Request \<Rightarrow> DoResult) \<Rightarrow> World" where
  "example_world files server =
     \<lparr>GetAllFileHashes = (\<lambda>tr. Inr files),
      DecryptString = (\<lambda>c. if c = ''corrupt'' then Inl ''message authentication failed'' else Inr c),
      regexp_Compile = (\<lambda>p. if p = ''.*'' then Inr (\<lambda>name. True) else Inl ''unsupported pattern''),
      json_Marshal = (\<lambda>v. Inr (''{min:'' @ fmt_d (MinVersion v) @ '',max:'' @ fmt_d (MaxVersion v) @ ''}'')),
      json_Unmarshal_DeleteVersions =
        (\<lambda>b. if b = ''{status:true}'' then Inr \<lparr>Status = True\<rparr>
             else if b = ''{status:false}'' then Inr \<lparr>Status = False\<rparr>
             else Inl ''invalid character''),
      json_Unmarshal_Versions = (\<lambda>b. Inl ''invalid character''),
      json_Unmarshal_MissingChunks = (\<lambda>b. Inl ''invalid character''),
      tls_LoadX509KeyPair = (\<lambda>crt key. None),
      ioutil_ReadFile = (\<lambda>path. Inl ''no such file or directory''),
      AppendCertsFromPEM = (\<lambda>pem. False),
      http_NewRequest = (\<lambda>method target. None),
      client_Do = (\<lambda>tr client req. server tr req)\<rparr>"

definition example_state :: State where
  "example_state = \<lparr>HostURI = ''http://h'', AuthToken = ''tok'', TLSCrt = [], TLSKey = []\<rparr>"


definition accepting :: "Event list \<Rightarrow> Request \<Rightarrow> DoResult" where
  "accepting tr req = DoResponse (ok_response ''{status:true}'')"

definition rejecting :: "Event list \<Rightarrow> Request \<Rightarrow> DoResult" where
  "rejecting tr req = DoResponse (ok_response ''{status:false}'')"

definition failing :: "Event list \<Rightarrow> Request \<Rightarrow> DoResult" where
  "failing tr req = DoResponse (error_response ''boom'')"

definition unreachable :: "Event list \<Rightarrow> Request \<Rightarrow> DoResult" where
  "unreachable tr req = DoError None ''dial tcp: connection refused''"

definition garbled :: "Event list \<Rightarrow> Request \<Rightarrow> DoResult" where
  "garbled tr req = DoResponse (ok_response ''<html>'')"

definition failing_for :: "string \<Rightarrow> Event list \<Rightarrow> Request \<Rightarrow> DoResult" where
  "failing_for target tr req =
     (if URL req = target then DoResponse (error_response ''boom'')
      else DoResponse (ok_response ''{status:true}''))"

definition file_a :: FileInfo where
  "file_a = \<lparr>FileID = 1, FileName = ''a.txt'', CurrentVersion = \<lparr>VersionNumber = 3\<rparr>\<rparr>"

definition file_b :: FileInfo where
  "file_b = \<lparr>FileID = 2, FileName = ''b.txt'', CurrentVersion = \<lparr>VersionNumber = 1\<rparr>\<rparr>"

definition file_single :: FileInfo where
  "file_single = \<lparr>FileID = 7, FileName = ''c.txt'', CurrentVersion = \<lparr>VersionNumber = 0\<rparr>\<rparr>"

definition file_corrupt :: FileInfo where
  "file_corrupt = \<lparr>FileID = 9, FileName = ''corrupt'', CurrentVersion = \<lparr>VersionNumber = 0\<rparr>\<rparr>"

section \<open>Shared facts\<close>

lemma show_nat_small: "n < 10 \<Longrightarrow> show_nat n = [''0123456789'' ! n]"
  by (simp add: show_nat.simps)

lemmas example_defs = example_world_def example_state_def ok_response_def error_response_def
  accepting_def rejecting_def failing_def unreachable_def
  file_a_def file_b_def file_single_def file_corrupt_def

lemmas request_defs = RunAuthRequest_def buildAuthRequest_def getHTTPClient_def
  handleResponse_def status_error_def

lemma handleResponse_Ok_iff:
  "handleResponse method target d = Ok body \<longleftrightarrow>
     (\<exists>resp. d = DoResponse resp \<and> http_StatusCode resp = 200 \<and> http_Body resp = Inr body)"
  by (auto simp: handleResponse_def split: DoResult.splits option.splits sum.splits)

lemma buildAuthRequest_cases:
  "(\<exists>m. buildAuthRequest w s target method token b = Err m) \<or>
   (\<exists>m. buildAuthRequest w s target method token b = Panic m) \<or>
   (\<exists>client. buildAuthRequest w s target method token b =
      Ok (client, \<lparr>Method = method, URL = target, Authorization = ''Bearer '' @ token,
                    ContentType = None, Body = b\<rparr>))"
  by (simp add: buildAuthRequest_def getHTTPClient_def split: option.split sum.split)

text \<open>
  A call of \<open>RunAuthRequest\<close> either ends before anything is sent (an error or a panic,
  the record of events unchanged), or hands exactly one request to \<open>client.Do\<close> and
  returns what \<open>handleResponse\<close> makes of the answer.
\<close>

lemma RunAuthRequest_cases:
  "(\<exists>m. RunAuthRequest w s tr target method token reqBody = (Err m, tr)) \<or>
   (\<exists>m. RunAuthRequest w s tr target method token reqBody = (Panic m, tr)) \<or>
   (\<exists>client req. RunAuthRequest w s tr target method token reqBody =
       (handleResponse method target (client_Do w tr client req), tr @ [HttpDo client req])
       \<and> Method req = method \<and> URL req = target \<and> Authorization req = ''Bearer '' @ token)"
proof (cases reqBody)
  case NilBody
  with buildAuthRequest_cases [of w s target "method" "token" None]
  show ?thesis
    by (elim disjE exE) (fastforce simp: RunAuthRequest_def Let_def)+
next
  case (ByteSlice b)
  with buildAuthRequest_cases [of w s target "method" "token" b]
  show ?thesis
    by (elim disjE exE) (fastforce simp: RunAuthRequest_def Let_def)+
next
  case (DeleteVersionsBody v)
  show ?thesis
  proof (cases "json_Marshal w v")
    case (Inl err)
    with DeleteVersionsBody show ?thesis by (simp add: RunAuthRequest_def)
  next
    case (Inr js)
    with DeleteVersionsBody buildAuthRequest_cases [of w s target "method" "token" "Some js"]
    show ?thesis
      by (elim disjE exE) (fastforce simp: RunAuthRequest_def Let_def)+
  qed
qed

lemma GetFileInfoByFilename_trace:
  "snd (GetFileInfoByFilename w s tr filename) = tr @ [CatalogFetch]"
  by (simp add: GetFileInfoByFilename_def split: sum.split)

lemma sle_pred: "sint x = sint y - 1 \<Longrightarrow> \<not> y \<le>s x"
  by (simp add: word_sle_eq)

lemmas eval_defs = GetFileInfoByFilename_def versions_target_def file_target_def fmt_d_def
  show_int_def show_nat_small word_sle_eq

section \<open>The dispatcher's status contract\<close>

text \<open>
  Claim C8. Whatever the URL, method, token and body: when \<open>RunAuthRequest\<close> returns a
  body as success, a request was sent and answered with status code 200, and the body is
  that response's payload; and when a sent request is answered by a response whose payload
  could be read, the call succeeds with the payload exactly if the status code is 200, and
  otherwise returns an error whose text holds the response's status text and its payload.
\<close>

theorem dispatch_success_only_on_200:
  "(fst (RunAuthRequest w s tr target method token reqBody) = Ok body \<longrightarrow>
      (\<exists>client req resp.
         snd (RunAuthRequest w s tr target method token reqBody) = tr @ [HttpDo client req] \<and>
         client_Do w tr client req = DoResponse resp \<and>
         http_StatusCode resp = 200 \<and> http_Body resp = Inr body)) \<and>
   (snd (RunAuthRequest w s tr target method token reqBody) = tr @ [HttpDo client req] \<and>
    client_Do w tr client req = DoResponse resp \<and> http_Body resp = Inr payload \<longrightarrow>
      fst (RunAuthRequest w s tr target method token reqBody) =
        (if http_StatusCode resp = 200 then Ok payload
         else Err (''Failed to make the HTTP '' @ method @ '' request to '' @ target @
                   '' (status: '' @ http_Status resp @ ''): '' @ payload)))"
proof (intro conjI impI)
  assume ok: "fst (RunAuthRequest w s tr target method token reqBody) = Ok body"
  from RunAuthRequest_cases [of w s tr target "method" "token" reqBody]
  show "\<exists>client req resp.
         snd (RunAuthRequest w s tr target method token reqBody) = tr @ [HttpDo client req] \<and>
         client_Do w tr client req = DoResponse resp \<and>
         http_StatusCode resp = 200 \<and> http_Body resp = Inr body"
  proof (elim disjE exE conjE)
    fix m assume "RunAuthRequest w s tr target method token reqBody = (Err m, tr)"
    with ok show ?thesis by simp
  next
    fix m assume "RunAuthRequest w s tr target method token reqBody = (Panic m, tr)"
    with ok show ?thesis by simp
  next
    fix c r
    assume run: "RunAuthRequest w s tr target method token reqBody =
       (handleResponse method target (client_Do w tr c r), tr @ [HttpDo c r])"
    with ok have "handleResponse method target (client_Do w tr c r) = Ok body" by simp
    then obtain resp where "client_Do w tr c r = DoResponse resp"
      "http_StatusCode resp = 200" "http_Body resp = Inr body"
      unfolding handleResponse_Ok_iff by blast
    with run show ?thesis by simp
  qed
next
  assume a: "snd (RunAuthRequest w s tr target method token reqBody) = tr @ [HttpDo client req] \<and>
    client_Do w tr client req = DoResponse resp \<and> http_Body resp = Inr payload"
  from RunAuthRequest_cases [of w s tr target "method" "token" reqBody]
  have run: "RunAuthRequest w s tr target method token reqBody =
       (handleResponse method target (client_Do w tr client req), tr @ [HttpDo client req])"
  proof (elim disjE exE conjE)
    fix m assume "RunAuthRequest w s tr target method token reqBody = (Err m, tr)"
    with a show ?thesis by simp
  next
    fix m assume "RunAuthRequest w s tr target method token reqBody = (Panic m, tr)"
    with a show ?thesis by simp
  next
    fix c r
    assume run: "RunAuthRequest w s tr target method token reqBody =
       (handleResponse method target (client_Do w tr c r), tr @ [HttpDo c r])"
    with a show ?thesis by simp
  qed
  with a show "fst (RunAuthRequest w s tr target method token reqBody) =
        (if http_StatusCode resp = 200 then Ok payload
         else Err (''Failed to make the HTTP '' @ method @ '' request to '' @ target @
                   '' (status: '' @ http_Status resp @ ''): '' @ payload))"
    by (simp add: handleResponse_def status_error_def)
qed

theorem dispatch_success_only_on_200_witness:
  "fst (RunAuthRequest (example_world [] accepting) example_state []
          ''http://h/api/file/1'' ''GET'' ''tok'' NilBody) = Ok ''{status:true}'' \<and>
   (\<exists>client req resp.
      snd (RunAuthRequest (example_world [] accepting) example_state []
             ''http://h/api/file/1'' ''GET'' ''tok'' NilBody) = [] @ [HttpDo client req] \<and>
      client_Do (example_world [] accepting) [] client req = DoResponse resp \<and>
      http_StatusCode resp = 200 \<and> http_Body resp = Inr ''{status:true}'') \<and>
   client_Do (example_world [] failing) [] PlainClient
      \<lparr>Method = ''DELETE'', URL = ''http://h/api/file/1'', Authorization = ''Bearer tok'',
       ContentType = None, Body = None\<rparr> = DoResponse (error_response ''boom'') \<and>
   RunAuthRequest (example_world [] failing) example_state []
          ''http://h/api/file/1'' ''DELETE'' ''tok'' NilBody =
     (Err (''Failed to make the HTTP DELETE request to http://h/api/file/1'' @
           '' (status: 500 Internal Server Error): boom''),
      [HttpDo PlainClient
         \<lparr>Method = ''DELETE'', URL = ''http://h/api/file/1'', Authorization = ''Bearer tok'',
          ContentType = None, Body = None\<rparr>])"
proof -
  have ok: "fst (RunAuthRequest (example_world [] accepting) example_state []
          ''http://h/api/file/1'' ''GET'' ''tok'' NilBody) = Ok ''{status:true}''"
    by (simp add: request_defs example_defs)
  have sent: "snd (RunAuthRequest (example_world [] failing) example_state []
          ''http://h/api/file/1'' ''DELETE'' ''tok'' NilBody) =
       [] @ [HttpDo PlainClient
         \<lparr>Method = ''DELETE'', URL = ''http://h/api/file/1'', Authorization = ''Bearer tok'',
          ContentType = None, Body = None\<rparr>] \<and>
     client_Do (example_world [] failing) [] PlainClient
        \<lparr>Method = ''DELETE'', URL = ''http://h/api/file/1'', Authorization = ''Bearer tok'',
         ContentType = None, Body = None\<rparr> = DoResponse (error_response ''boom'') \<and>
     http_Body (error_response ''boom'') = Inr ''boom''"
    by (simp add: request_defs example_defs)
  note main = dispatch_success_only_on_200
  from main [THEN conjunct1, rule_format, OF ok]
       main [THEN conjunct2, rule_format, OF sent] ok sent
  show ?thesis
    by (simp add: error_response_def prod_eq_iff)
qed

section \<open>Pruning the versions of one file\<close>

text \<open>
  Claim C5. For a file record that name resolution returned: a maximum version at or
  above the record's current version number makes \<open>RmFileVersions\<close> fail with the
  range error, in a dry run as well, and nothing but the catalog fetch has happened by
  then; with the maximum version one below the current version number, outside a dry run,
  a request that comes back with a body (status 200) whose status flag is true makes the
  call succeed; and for any maximum version below the current one, such a body whose
  status flag is false makes it fail with the failed-status error.
\<close>

theorem single_prune_range_and_status:
  assumes resolved: "GetFileInfoByFilename w s tr filename = (Ok fi, tr1)"
  shows "(VersionNumber (CurrentVersion fi) \<le>s maxVersion \<longrightarrow>
            RmFileVersions w s tr filename minVersion maxVersion dryRun =
              (Err range_error, tr @ [CatalogFetch])) \<and>
         (sint maxVersion = sint (VersionNumber (CurrentVersion fi)) - 1 \<and>
          RunAuthRequest w s tr1 (versions_target s (FileID fi)) ''DELETE'' (AuthToken s)
            (DeleteVersionsBody \<lparr>MinVersion = minVersion, MaxVersion = maxVersion\<rparr>) =
            (Ok body, tr2) \<and>
          json_Unmarshal_DeleteVersions w body = Inr r \<and> Status r \<longrightarrow>
            RmFileVersions w s tr filename minVersion maxVersion False = (Ok (), tr2)) \<and>
         (\<not> VersionNumber (CurrentVersion fi) \<le>s maxVersion \<and>
          RunAuthRequest w s tr1 (versions_target s (FileID fi)) ''DELETE'' (AuthToken s)
            (DeleteVersionsBody \<lparr>MinVersion = minVersion, MaxVersion = maxVersion\<rparr>) =
            (Ok body, tr2) \<and>
          json_Unmarshal_DeleteVersions w body = Inr r \<and> \<not> Status r \<longrightarrow>
            RmFileVersions w s tr filename minVersion maxVersion False =
              (Err failed_status, tr2))"
proof (intro conjI impI)
  from GetFileInfoByFilename_trace [of w s tr filename] resolved
  have tr1: "tr1 = tr @ [CatalogFetch]" by simp
  assume "VersionNumber (CurrentVersion fi) \<le>s maxVersion"
  with resolved tr1
  show "RmFileVersions w s tr filename minVersion maxVersion dryRun =
          (Err range_error, tr @ [CatalogFetch])"
    by (simp add: RmFileVersions_def)
next
  assume a: "sint maxVersion = sint (VersionNumber (CurrentVersion fi)) - 1 \<and>
          RunAuthRequest w s tr1 (versions_target s (FileID fi)) ''DELETE'' (AuthToken s)
            (DeleteVersionsBody \<lparr>MinVersion = minVersion, MaxVersion = maxVersion\<rparr>) =
            (Ok body, tr2) \<and>
          json_Unmarshal_DeleteVersions w body = Inr r \<and> Status r"
  then have "\<not> VersionNumber (CurrentVersion fi) \<le>s maxVersion"
    by (simp add: sle_pred)
  with resolved a
  show "RmFileVersions w s tr filename minVersion maxVersion False = (Ok (), tr2)"
    by (simp add: RmFileVersions_def)
next
  assume a: "\<not> VersionNumber (CurrentVersion fi) \<le>s maxVersion \<and>
          RunAuthRequest w s tr1 (versions_target s (FileID fi)) ''DELETE'' (AuthToken s)
            (DeleteVersionsBody \<lparr>MinVersion = minVersion, MaxVersion = maxVersion\<rparr>) =
            (Ok body, tr2) \<and>
          json_Unmarshal_DeleteVersions w body = Inr r \<and> \<not> Status r"
  with resolved
  show "RmFileVersions w s tr filename minVersion maxVersion False = (Err failed_status, tr2)"
    by (simp add: RmFileVersions_def)
qed

theorem single_prune_range_and_status_witness:
  "GetFileInfoByFilename (example_world [file_a, file_b] accepting) example_state [] ''a.txt'' =
     (Ok file_a, [CatalogFetch]) \<and>
   VersionNumber (CurrentVersion file_a) \<le>s 3 \<and>
   RmFileVersions (example_world [file_a, file_b] accepting) example_state [] ''a.txt'' 0 3 True =
     (Err range_error, [CatalogFetch]) \<and>
   RmFileVersions (example_world [file_a, file_b] accepting) example_state [] ''a.txt'' 0 3 False =
     (Err range_error, [CatalogFetch]) \<and>
   sint (2 :: goint) = sint (VersionNumber (CurrentVersion file_a)) - 1 \<and>
   fst (RmFileVersions (example_world [file_a, file_b] accepting) example_state [] ''a.txt'' 0 2 False) =
     Ok () \<and>
   fst (RmFileVersions (example_world [file_a, file_b] rejecting) example_state [] ''a.txt'' 0 2 False) =
     Err failed_status"
proof -
  let ?wa = "example_world [file_a, file_b] accepting"
  let ?wr = "example_world [file_a, file_b] rejecting"
  let ?req = "\<lparr>Method = ''DELETE'', URL = ''http://h/api/file/1/versions'',
                Authorization = ''Bearer tok'', ContentType = Some ''application/json'',
                Body = Some ''{min:0,max:2}''\<rparr>"
  have ra: "GetFileInfoByFilename ?wa example_state [] ''a.txt'' = (Ok file_a, [CatalogFetch])"
    by (simp add: eval_defs example_defs)
  have rr: "GetFileInfoByFilename ?wr example_state [] ''a.txt'' = (Ok file_a, [CatalogFetch])"
    by (simp add: eval_defs example_defs)
  have at_cur: "VersionNumber (CurrentVersion file_a) \<le>s 3"
    by (simp add: file_a_def word_sle_eq)
  have below: "sint (2 :: goint) = sint (VersionNumber (CurrentVersion file_a)) - 1 \<and>
      RunAuthRequest ?wa example_state [CatalogFetch] (versions_target example_state (FileID file_a))
        ''DELETE'' (AuthToken example_state)
        (DeleteVersionsBody \<lparr>MinVersion = 0, MaxVersion = 2\<rparr>) =
        (Ok ''{status:true}'', [CatalogFetch, HttpDo PlainClient ?req]) \<and>
      json_Unmarshal_DeleteVersions ?wa ''{status:true}'' = Inr \<lparr>Status = True\<rparr> \<and>
      Status \<lparr>Status = True\<rparr>"
    by (simp add: eval_defs example_defs request_defs)
  have rejected: "\<not> VersionNumber (CurrentVersion file_a) \<le>s 2 \<and>
      RunAuthRequest ?wr example_state [CatalogFetch] (versions_target example_state (FileID file_a))
        ''DELETE'' (AuthToken example_state)
        (DeleteVersionsBody \<lparr>MinVersion = 0, MaxVersion = 2\<rparr>) =
        (Ok ''{status:false}'', [CatalogFetch, HttpDo PlainClient ?req]) \<and>
      json_Unmarshal_DeleteVersions ?wr ''{status:false}'' = Inr \<lparr>Status = False\<rparr> \<and>
      \<not> Status \<lparr>Status = False\<rparr>"
    by (simp add: eval_defs example_defs request_defs)
  note main = single_prune_range_and_status
  from main [OF ra, THEN conjunct1, rule_format, OF at_cur, of 0 True]
       main [OF ra, THEN conjunct1, rule_format, OF at_cur, of 0 False]
       main [OF ra, THEN conjunct2, THEN conjunct1, rule_format, OF below]
       main [OF rr, THEN conjunct2, THEN conjunct2, rule_format, OF rejected]
       ra at_cur below
  show ?thesis by simp
qed

section \<open>The minimum version is passed on unchecked\<close>

text \<open>
  Claim C10. \<open>RmFileVersions\<close> never looks at \<open>minVersion\<close>. For every value of it,
  negative or above \<open>maxVersion\<close> included: when the file is resolved, \<open>maxVersion\<close> is
  below the current version number and the run is not a dry run, then (the request body
  marshalled and the HTTP request built) exactly one request is sent, a \<open>DELETE\<close> to the
  file's versions whose body is the marshalled pair \<open>(minVersion, maxVersion)\<close> as it was
  supplied, and the result is decided by the answer to that request alone.
\<close>

theorem minVersion_not_validated:
  assumes resolved: "GetFileInfoByFilename w s tr filename = (Ok fi, tr1)"
    and below: "\<not> VersionNumber (CurrentVersion fi) \<le>s maxVersion"
    and marshal: "json_Marshal w \<lparr>MinVersion = minVersion, MaxVersion = maxVersion\<rparr> = Inr js"
    and client: "getHTTPClient w s = Ok client"
    and newreq: "http_NewRequest w ''DELETE'' (versions_target s (FileID fi)) = None"
    and req: "req = \<lparr>Method = ''DELETE'', URL = versions_target s (FileID fi),
                     Authorization = ''Bearer '' @ AuthToken s,
                     ContentType = Some ''application/json'', Body = Some js\<rparr>"
  shows "snd (RmFileVersions w s tr filename minVersion maxVersion False) =
           tr1 @ [HttpDo client req] \<and>
         fst (RmFileVersions w s tr filename minVersion maxVersion False) =
           (case handleResponse ''DELETE'' (versions_target s (FileID fi))
                   (client_Do w tr1 client req) of
              Ok body \<Rightarrow>
                (case json_Unmarshal_DeleteVersions w body of
                   Inl err \<Rightarrow> Err (''Failed to delete the file versions: '' @ err)
                 | Inr r \<Rightarrow> if Status r then Ok () else Err failed_status)
            | Err e \<Rightarrow>
                Err (''Failed to delete the file versions for '' @
                     versions_target s (FileID fi) @ '': '' @ e)
            | Fatal m \<Rightarrow> Fatal m
            | Panic m \<Rightarrow> Panic m)"
proof -
  have run: "RunAuthRequest w s tr1 (versions_target s (FileID fi)) ''DELETE'' (AuthToken s)
               (DeleteVersionsBody \<lparr>MinVersion = minVersion, MaxVersion = maxVersion\<rparr>) =
             (handleResponse ''DELETE'' (versions_target s (FileID fi))
                (client_Do w tr1 client req), tr1 @ [HttpDo client req])"
    using marshal client newreq req
    by (simp add: RunAuthRequest_def buildAuthRequest_def Let_def)
  show ?thesis
    using resolved below
    by (simp add: RmFileVersions_def run split: result.split sum.split)
qed

theorem minVersion_not_validated_witness:
  "snd (RmFileVersions (example_world [file_a, file_b] accepting) example_state [] ''a.txt''
          5 2 False) =
     [CatalogFetch,
      HttpDo PlainClient
        \<lparr>Method = ''DELETE'', URL = ''http://h/api/file/1/versions'',
         Authorization = ''Bearer tok'', ContentType = Some ''application/json'',
         Body = Some ''{min:5,max:2}''\<rparr>] \<and>
   fst (RmFileVersions (example_world [file_a, file_b] accepting) example_state [] ''a.txt''
          5 2 False) = Ok () \<and>
   snd (RmFileVersions (example_world [file_a, file_b] accepting) example_state [] ''a.txt''
          (- 4) 2 False) =
     [CatalogFetch,
      HttpDo PlainClient
        \<lparr>Method = ''DELETE'', URL = ''http://h/api/file/1/versions'',
         Authorization = ''Bearer tok'', ContentType = Some ''application/json'',
         Body = Some ''{min:-4,max:2}''\<rparr>] \<and>
   fst (RmFileVersions (example_world [file_a, file_b] accepting) example_state [] ''a.txt''
          (- 4) 2 False) = Ok ()"
proof -
  let ?w = "example_world [file_a, file_b] accepting"
  have resolved: "GetFileInfoByFilename ?w example_state [] ''a.txt'' = (Ok file_a, [CatalogFetch])"
    by (simp add: eval_defs example_defs)
  have below: "\<not> VersionNumber (CurrentVersion file_a) \<le>s 2"
    by (simp add: file_a_def word_sle_eq)
  have m1: "json_Marshal ?w \<lparr>MinVersion = 5, MaxVersion = 2\<rparr> = Inr ''{min:5,max:2}''"
    by (simp add: eval_defs example_defs)
  have m2: "json_Marshal ?w \<lparr>MinVersion = - 4, MaxVersion = 2\<rparr> = Inr ''{min:-4,max:2}''"
    by (simp add: eval_defs example_defs)
  have client: "getHTTPClient ?w example_state = Ok PlainClient"
    by (simp add: getHTTPClient_def example_defs)
  have newreq: "http_NewRequest ?w ''DELETE'' (versions_target example_state (FileID file_a)) = None"
    by (simp add: example_defs)
  have r1: "\<lparr>Method = ''DELETE'', URL = ''http://h/api/file/1/versions'',
         Authorization = ''Bearer tok'', ContentType = Some ''application/json'',
         Body = Some ''{min:5,max:2}''\<rparr> =
       \<lparr>Method = ''DELETE'', URL = versions_target example_state (FileID file_a),
         Authorization = ''Bearer '' @ AuthToken example_state,
         ContentType = Some ''application/json'', Body = Some ''{min:5,max:2}''\<rparr>"
    by (simp add: eval_defs example_defs)
  have r2: "\<lparr>Method = ''DELETE'', URL = ''http://h/api/file/1/versions'',
         Authorization = ''Bearer tok'', ContentType = Some ''application/json'',
         Body = Some ''{min:-4,max:2}''\<rparr> =
       \<lparr>Method = ''DELETE'', URL = versions_target example_state (FileID file_a),
         Authorization = ''Bearer '' @ AuthToken example_state,
         ContentType = Some ''application/json'', Body = Some ''{min:-4,max:2}''\<rparr>"
    by (simp add: eval_defs example_defs)
  from minVersion_not_validated [OF resolved below m1 client newreq r1]
       minVersion_not_validated [OF resolved below m2 client newreq r2]
  show ?thesis
    by (simp add: handleResponse_def example_defs)
qed

section \<open>Dry runs\<close>

lemma requests_of_append: "requests_of (xs @ ys) = requests_of xs @ requests_of ys"
  by (induction xs rule: requests_of.induct) simp_all

lemma requests_of_Printf: "requests_of (map Printf ls) = []"
  by (induction ls) simp_all

lemma deletes_of_reports:
  "deletes_of (tr @ CatalogFetch # map Printf ls) = deletes_of tr"
  by (simp add: deletes_of_def requests_of_append requests_of_Printf)


lemma RmRxFiles_loop_dry:
  "\<exists>ls. snd (RmRxFiles_loop w s compiledFilter True tr files) = tr @ map Printf ls"
proof (induction files arbitrary: tr)
  case Nil
  have "snd (RmRxFiles_loop w s compiledFilter True tr []) = tr @ map Printf []" by simp
  then show ?case by blast
next
  case (Cons fi rest)
  show ?case
  proof (cases "DecryptString w (FileName fi)")
    case (Inl err)
    then have "snd (RmRxFiles_loop w s compiledFilter True tr (fi # rest)) = tr @ map Printf []"
      by simp
    then show ?thesis by blast
  next
    case (Inr name)
    show ?thesis
    proof (cases "compiledFilter name")
      case True
      from Cons [of "tr @ [removed_file name]"] obtain ls where
        "snd (RmRxFiles_loop w s compiledFilter True (tr @ [removed_file name]) rest) =
           (tr @ [removed_file name]) @ map Printf ls" by blast
      with Inr True
      have "snd (RmRxFiles_loop w s compiledFilter True tr (fi # rest)) =
              tr @ map Printf ((''Removed file: '' @ name @ [CHR 0x0A]) # ls)"
        by (simp add: removed_file_def)
      then show ?thesis by blast
    next
      case False
      with Inr Cons [of tr] show ?thesis by simp
    qed
  qed
qed

lemma RmRxFileVersions_loop_dry:
  "\<exists>ls. snd (RmRxFileVersions_loop w s compiledFilter minVersion maxVersionStr True tr files) =
          tr @ map Printf ls"
proof (induction files arbitrary: tr)
  case Nil
  have "snd (RmRxFileVersions_loop w s compiledFilter minVersion maxVersionStr True tr []) =
          tr @ map Printf []" by simp
  then show ?case by blast
next
  case (Cons fi rest)
  have stop: "snd (RmRxFileVersions_loop w s compiledFilter minVersion maxVersionStr True tr
                     (fi # rest)) = tr \<Longrightarrow> ?case"
  proof -
    assume "snd (RmRxFileVersions_loop w s compiledFilter minVersion maxVersionStr True tr
                   (fi # rest)) = tr"
    then have "snd (RmRxFileVersions_loop w s compiledFilter minVersion maxVersionStr True tr
                      (fi # rest)) = tr @ map Printf []" by simp
    then show ?case by blast
  qed
  show ?case
  proof (cases "DecryptString w (FileName fi)")
    case (Inl err)
    then show ?thesis by (intro stop) simp
  next
    case (Inr name)
    show ?thesis
    proof (cases "compiledFilter name")
      case False
      with Inr Cons [of tr] show ?thesis by simp
    next
      case True
      show ?thesis
      proof (cases "resolveMaxVersion maxVersionStr fi")
        case (Ok maxVersion)
        show ?thesis
        proof (cases "VersionNumber (CurrentVersion fi) \<le>s maxVersion")
          case skipped: True
          with Inr True Ok Cons [of tr] show ?thesis by simp
        next
          case pruned: False
          from Cons [of "tr @ [removed_versions name minVersion maxVersion]"] obtain ls where
            "snd (RmRxFileVersions_loop w s compiledFilter minVersion maxVersionStr True
                    (tr @ [removed_versions name minVersion maxVersion]) rest) =
               (tr @ [removed_versions name minVersion maxVersion]) @ map Printf ls" by blast
          with Inr True Ok pruned
          have "snd (RmRxFileVersions_loop w s compiledFilter minVersion maxVersionStr True tr
                       (fi # rest)) =
                  tr @ map Printf ((name @ '' -- successfully removed versions '' @
                     fmt_d minVersion @ '' to '' @ fmt_d maxVersion @ ''.'' @ [CHR 0x0A]) # ls)"
            by (simp add: removed_versions_def)
          then show ?thesis by blast
        qed
      next
        case (Err e)
        with Inr True show ?thesis by (intro stop) simp
      next
        case (Fatal m)
        with Inr True show ?thesis by (intro stop) simp
      next
        case (Panic m)
        with Inr True show ?thesis by (intro stop) simp
      qed
    qed
  qed
qed

lemma RmFile_dry:
  "\<exists>ls. snd (RmFile w s tr filename True) = tr @ CatalogFetch # map Printf ls"
proof (cases "fst (GetFileInfoByFilename w s tr filename)")
  case (Ok fi)
  with GetFileInfoByFilename_trace [of w s tr filename]
  have "GetFileInfoByFilename w s tr filename = (Ok fi, tr @ [CatalogFetch])"
    by (simp add: prod_eq_iff)
  then have "snd (RmFile w s tr filename True) =
               tr @ CatalogFetch # map Printf [''Removed file: '' @ filename @ [CHR 0x0A]]"
    by (simp add: RmFile_def removed_file_def)
  then show ?thesis by blast
next
  case (Err e)
  with GetFileInfoByFilename_trace [of w s tr filename]
  have "GetFileInfoByFilename w s tr filename = (Err e, tr @ [CatalogFetch])"
    by (simp add: prod_eq_iff)
  then have "snd (RmFile w s tr filename True) = tr @ CatalogFetch # map Printf []"
    by (simp add: RmFile_def)
  then show ?thesis by blast
next
  case (Fatal m)
  with GetFileInfoByFilename_trace [of w s tr filename]
  have "GetFileInfoByFilename w s tr filename = (Fatal m, tr @ [CatalogFetch])"
    by (simp add: prod_eq_iff)
  then have "snd (RmFile w s tr filename True) = tr @ CatalogFetch # map Printf []"
    by (simp add: RmFile_def)
  then show ?thesis by blast
next
  case (Panic m)
  with GetFileInfoByFilename_trace [of w s tr filename]
  have "GetFileInfoByFilename w s tr filename = (Panic m, tr @ [CatalogFetch])"
    by (simp add: prod_eq_iff)
  then have "snd (RmFile w s tr filename True) = tr @ CatalogFetch # map Printf []"
    by (simp add: RmFile_def)
  then show ?thesis by blast
qed

lemma RmFileVersions_dry:
  "snd (RmFileVersions w s tr filename minVersion maxVersion True) = tr @ [CatalogFetch]"
proof -
  obtain r where "GetFileInfoByFilename w s tr filename = (r, tr @ [CatalogFetch])"
    using GetFileInfoByFilename_trace [of w s tr filename] by (simp add: prod_eq_iff)
  then show ?thesis
    by (cases r) (simp_all add: RmFileVersions_def)
qed

lemma RmRxFiles_dry:
  "\<exists>ls. snd (RmRxFiles w s tr pattern True) = tr @ CatalogFetch # map Printf ls"
proof (cases "GetAllFileHashes w tr")
  case (Inl err)
  then have "snd (RmRxFiles w s tr pattern True) = tr @ CatalogFetch # map Printf []"
    by (simp add: RmRxFiles_def)
  then show ?thesis by blast
next
  case files: (Inr allFiles)
  show ?thesis
  proof (cases "regexp_Compile w pattern")
    case (Inl err)
    with files have "snd (RmRxFiles w s tr pattern True) = tr @ CatalogFetch # map Printf []"
      by (simp add: RmRxFiles_def)
    then show ?thesis by blast
  next
    case (Inr compiledFilter)
    from RmRxFiles_loop_dry [of w s compiledFilter "tr @ [CatalogFetch]" allFiles]
    obtain ls where "snd (RmRxFiles_loop w s compiledFilter True (tr @ [CatalogFetch]) allFiles) =
        (tr @ [CatalogFetch]) @ map Printf ls" by blast
    with files Inr have "snd (RmRxFiles w s tr pattern True) = tr @ CatalogFetch # map Printf ls"
      by (simp add: RmRxFiles_def)
    then show ?thesis by blast
  qed
qed

lemma RmRxFileVersions_dry:
  "\<exists>ls. snd (RmRxFileVersions w s tr pattern minVersion maxVersionStr True) =
          tr @ CatalogFetch # map Printf ls"
proof (cases "GetAllFileHashes w tr")
  case (Inl err)
  then have "snd (RmRxFileVersions w s tr pattern minVersion maxVersionStr True) =
               tr @ CatalogFetch # map Printf []"
    by (simp add: RmRxFileVersions_def)
  then show ?thesis by blast
next
  case files: (Inr allFiles)
  show ?thesis
  proof (cases "regexp_Compile w pattern")
    case (Inl err)
    with files have "snd (RmRxFileVersions w s tr pattern minVersion maxVersionStr True) =
                       tr @ CatalogFetch # map Printf []"
      by (simp add: RmRxFileVersions_def)
    then show ?thesis by blast
  next
    case (Inr compiledFilter)
    from RmRxFileVersions_loop_dry
           [of w s compiledFilter minVersion maxVersionStr "tr @ [CatalogFetch]" allFiles]
    obtain ls where
      "snd (RmRxFileVersions_loop w s compiledFilter minVersion maxVersionStr True
              (tr @ [CatalogFetch]) allFiles) = (tr @ [CatalogFetch]) @ map Printf ls" by blast
    with files Inr
    have "snd (RmRxFileVersions w s tr pattern minVersion maxVersionStr True) =
            tr @ CatalogFetch # map Printf ls"
      by (simp add: RmRxFileVersions_def)
    then show ?thesis by blast
  qed
qed

text \<open>
  Claim C6. With \<open>dryRun\<close> true, each of the four operations adds to the record of
  events the catalog fetch and then printed lines only: no request is handed to
  \<open>client.Do\<close>, so the \<open>DELETE\<close> requests are those that were there before. The checks
  still run: removing by name still fails when the name does not resolve, and pruning one
  file still fails with the range error when the maximum version is not below the current
  one.
\<close>

theorem dry_run_sends_nothing:
  "(\<exists>ls. snd (RmFile w s tr filename True) = tr @ CatalogFetch # map Printf ls) \<and>
   (\<exists>ls. snd (RmRxFiles w s tr pattern True) = tr @ CatalogFetch # map Printf ls) \<and>
   snd (RmFileVersions w s tr filename minVersion maxVersion True) = tr @ [CatalogFetch] \<and>
   (\<exists>ls. snd (RmRxFileVersions w s tr pattern minVersion maxVersionStr True) =
           tr @ CatalogFetch # map Printf ls) \<and>
   deletes_of (snd (RmFile w s tr filename True)) = deletes_of tr \<and>
   deletes_of (snd (RmRxFiles w s tr pattern True)) = deletes_of tr \<and>
   deletes_of (snd (RmFileVersions w s tr filename minVersion maxVersion True)) = deletes_of tr \<and>
   deletes_of (snd (RmRxFileVersions w s tr pattern minVersion maxVersionStr True)) =
     deletes_of tr \<and>
   fst (RmFile w s tr filename True) =
     (case fst (GetFileInfoByFilename w s tr filename) of
        Ok fi \<Rightarrow> Ok () | Err e \<Rightarrow> Err e | Fatal m \<Rightarrow> Fatal m | Panic m \<Rightarrow> Panic m) \<and>
   fst (RmFileVersions w s tr filename minVersion maxVersion True) =
     (case fst (GetFileInfoByFilename w s tr filename) of
        Ok fi \<Rightarrow>
          if VersionNumber (CurrentVersion fi) \<le>s maxVersion then Err range_error else Ok ()
      | Err e \<Rightarrow> Err e | Fatal m \<Rightarrow> Fatal m | Panic m \<Rightarrow> Panic m)"
proof -
  obtain l1 where l1: "snd (RmFile w s tr filename True) = tr @ CatalogFetch # map Printf l1"
    using RmFile_dry by blast
  obtain l2 where l2: "snd (RmRxFiles w s tr pattern True) = tr @ CatalogFetch # map Printf l2"
    using RmRxFiles_dry by blast
  have l3: "snd (RmFileVersions w s tr filename minVersion maxVersion True) =
              tr @ CatalogFetch # map Printf []"
    by (simp add: RmFileVersions_dry)
  obtain l4 where l4: "snd (RmRxFileVersions w s tr pattern minVersion maxVersionStr True) =
      tr @ CatalogFetch # map Printf l4"
    using RmRxFileVersions_dry by blast
  have d: "deletes_of (snd (RmFile w s tr filename True)) = deletes_of tr"
      "deletes_of (snd (RmRxFiles w s tr pattern True)) = deletes_of tr"
      "deletes_of (snd (RmFileVersions w s tr filename minVersion maxVersion True)) = deletes_of tr"
      "deletes_of (snd (RmRxFileVersions w s tr pattern minVersion maxVersionStr True)) =
         deletes_of tr"
    unfolding l1 l2 l3 l4 by (rule deletes_of_reports)+
  have f1: "fst (RmFile w s tr filename True) =
     (case fst (GetFileInfoByFilename w s tr filename) of
        Ok fi \<Rightarrow> Ok () | Err e \<Rightarrow> Err e | Fatal m \<Rightarrow> Fatal m | Panic m \<Rightarrow> Panic m)"
    by (cases "GetFileInfoByFilename w s tr filename")
       (simp add: RmFile_def split: result.split)
  have f2: "fst (RmFileVersions w s tr filename minVersion maxVersion True) =
     (case fst (GetFileInfoByFilename w s tr filename) of
        Ok fi \<Rightarrow>
          if VersionNumber (CurrentVersion fi) \<le>s maxVersion then Err range_error else Ok ()
      | Err e \<Rightarrow> Err e | Fatal m \<Rightarrow> Fatal m | Panic m \<Rightarrow> Panic m)"
    by (cases "GetFileInfoByFilename w s tr filename")
       (simp add: RmFileVersions_def split: result.split)
  from l1 l2 l4 show ?thesis
    using RmFileVersions_dry [of w s tr filename minVersion maxVersion] d f1 f2
    by blast
qed

section \<open>Resolution and corrupt catalog entries\<close>

lemma findByFilename_skip:
  "list_all (other_name w filename) pre \<Longrightarrow>
   findByFilename w filename (pre @ xs) = findByFilename w filename xs"
  by (induction pre) (auto simp: other_name_def split: sum.splits)

text \<open>
  Claim C9 as stated fails: a catalog with a corrupt entry after the sought file resolves.
  The catalog \<open>[a.txt, corrupt]\<close> holds an entry that does not decrypt, and resolving
  \<open>a.txt\<close> succeeds.
\<close>

theorem resolution_with_corrupt_entry_counterexample:
  "GetAllFileHashes (example_world [file_a, file_corrupt] accepting) [] =
     Inr [file_a, file_corrupt] \<and>
   DecryptString (example_world [file_a, file_corrupt] accepting) (FileName file_corrupt) =
     Inl ''message authentication failed'' \<and>
   GetFileInfoByFilename (example_world [file_a, file_corrupt] accepting) example_state []
     ''a.txt'' = (Ok file_a, [CatalogFetch])"
  by (simp add: eval_defs example_defs)

text \<open>
  Claim C9, amended. The scan stops at the first entry that either fails to decrypt or
  carries the sought name. When every entry before some entry decrypts to another name:
  if that entry fails to decrypt, resolution fails with its decryption error, whatever
  follows, the sought file included; if that entry decrypts to the sought name, resolution
  returns it, whatever follows, corrupt entries included.
\<close>

theorem resolution_stops_at_first_corrupt_or_match:
  assumes catalog: "GetAllFileHashes w tr = Inr (pre @ fi # rest)"
    and before: "list_all (other_name w filename) pre"
  shows "(DecryptString w (FileName fi) = Inl err \<longrightarrow>
            GetFileInfoByFilename w s tr filename = (Err err, tr @ [CatalogFetch])) \<and>
         (DecryptString w (FileName fi) = Inr filename \<longrightarrow>
            GetFileInfoByFilename w s tr filename = (Ok fi, tr @ [CatalogFetch]))"
  using catalog findByFilename_skip [OF before, of "fi # rest"]
  by (simp add: GetFileInfoByFilename_def)

theorem resolution_stops_at_first_corrupt_or_match_witness:
  "GetAllFileHashes (example_world [file_b, file_corrupt, file_a] accepting) [] =
     Inr ([file_b] @ file_corrupt # [file_a]) \<and>
   list_all (other_name (example_world [file_b, file_corrupt, file_a] accepting) ''a.txt'') [file_b] \<and>
   GetFileInfoByFilename (example_world [file_b, file_corrupt, file_a] accepting) example_state []
     ''a.txt'' = (Err ''message authentication failed'', [CatalogFetch]) \<and>
   GetAllFileHashes (example_world [file_b, file_a, file_corrupt] accepting) [] =
     Inr ([file_b] @ file_a # [file_corrupt]) \<and>
   GetFileInfoByFilename (example_world [file_b, file_a, file_corrupt] accepting) example_state []
     ''a.txt'' = (Ok file_a, [CatalogFetch])"
proof -
  let ?w1 = "example_world [file_b, file_corrupt, file_a] accepting"
  let ?w2 = "example_world [file_b, file_a, file_corrupt] accepting"
  have c1: "GetAllFileHashes ?w1 [] = Inr ([file_b] @ file_corrupt # [file_a])"
    by (simp add: example_defs)
  have c2: "GetAllFileHashes ?w2 [] = Inr ([file_b] @ file_a # [file_corrupt])"
    by (simp add: example_defs)
  have b1: "list_all (other_name ?w1 ''a.txt'') [file_b]"
    by (simp add: other_name_def example_defs)
  have b2: "list_all (other_name ?w2 ''a.txt'') [file_b]"
    by (simp add: other_name_def example_defs)
  have d1: "DecryptString ?w1 (FileName file_corrupt) = Inl ''message authentication failed''"
    by (simp add: example_defs)
  have d2: "DecryptString ?w2 (FileName file_a) = Inr ''a.txt''"
    by (simp add: example_defs)
  note main = resolution_stops_at_first_corrupt_or_match
  from main [OF c1 b1, THEN conjunct1, rule_format, OF d1, of example_state]
       main [OF c2 b2, THEN conjunct2, rule_format, OF d2, of example_state]
       c1 c2 b1
  show ?thesis by simp
qed

section \<open>The batch prune and a failing deletion\<close>

lemma RmRxFileVersions_loop_append:
  "RmRxFileVersions_loop w s compiledFilter minVersion maxVersionStr dryRun tr pre = (Ok (), tr1)
   \<Longrightarrow> RmRxFileVersions_loop w s compiledFilter minVersion maxVersionStr dryRun tr (pre @ xs) =
       RmRxFileVersions_loop w s compiledFilter minVersion maxVersionStr dryRun tr1 xs"
proof (induction pre arbitrary: tr)
  case Nil
  then show ?case by simp
next
  case (Cons fi pre)
  show ?case
  proof (cases "DecryptString w (FileName fi)")
    case (Inl err)
    with Cons.prems show ?thesis by simp
  next
    case (Inr name)
    show ?thesis
    proof (cases "compiledFilter name")
      case False
      with Inr Cons.prems Cons.IH [of tr] show ?thesis by simp
    next
      case True
      show ?thesis
      proof (cases "resolveMaxVersion maxVersionStr fi")
        case (Ok maxVersion)
        show ?thesis
        proof (cases "VersionNumber (CurrentVersion fi) \<le>s maxVersion")
          case skipped: True
          with Inr True Ok Cons.prems Cons.IH [of tr] show ?thesis by simp
        next
          case pruned: False
          show ?thesis
          proof (cases dryRun)
            case dry: True
            with Inr True Ok pruned Cons.prems
              Cons.IH [of "tr @ [removed_versions name minVersion maxVersion]"]
            show ?thesis by simp
          next
            case wet: False
            obtain r tr2 where run:
              "RunAuthRequest w s tr (versions_target s (FileID fi)) ''DELETE'' (AuthToken s)
                 (DeleteVersionsBody \<lparr>MinVersion = minVersion, MaxVersion = maxVersion\<rparr>) =
               (r, tr2)" by (cases "RunAuthRequest w s tr (versions_target s (FileID fi))
                 ''DELETE'' (AuthToken s)
                 (DeleteVersionsBody \<lparr>MinVersion = minVersion, MaxVersion = maxVersion\<rparr>)")
            show ?thesis
            proof (cases r)
              case body: (Ok body)
              show ?thesis
              proof (cases "json_Unmarshal_DeleteVersions w body")
                case (Inl err)
                with Inr True Ok pruned wet run body Cons.prems show ?thesis by simp
              next
                case resp: (Inr resp)
                show ?thesis
                proof (cases "Status resp")
                  case accepted: True
                  with Inr True Ok pruned wet run body resp Cons.prems
                    Cons.IH [of "tr2 @ [removed_versions name minVersion maxVersion]"]
                  show ?thesis by simp
                next
                  case rejected: False
                  with Inr True Ok pruned wet run body resp Cons.prems show ?thesis by simp
                qed
              qed
            next
              case (Err e)
              with Inr True Ok pruned wet run Cons.prems show ?thesis by simp
            next
              case (Fatal m)
              with Inr True Ok pruned wet run Cons.prems show ?thesis by simp
            next
              case (Panic m)
              with Inr True Ok pruned wet run Cons.prems show ?thesis by simp
            qed
          qed
        qed
      next
        case (Err e)
        with Inr True Cons.prems show ?thesis by simp
      next
        case (Fatal m)
        with Inr True Cons.prems show ?thesis by simp
      next
        case (Panic m)
        with Inr True Cons.prems show ?thesis by simp
      qed
    qed
  qed
qed

text \<open>
  Claim C1 as stated fails. Two files match \<open>.*\<close>; the server answers the deletion for
  the first with status 500. The operation returns that error; the only request sent is
  the one for the first file, and nothing is sent or printed for the second.
\<close>

theorem batch_failure_aborts_counterexample:
  "GetAllFileHashes (example_world [file_a, file_b] failing) [] = Inr [file_a, file_b] \<and>
   (case regexp_Compile (example_world [file_a, file_b] failing) ''.*'' of
      Inl err \<Rightarrow> False
    | Inr compiledFilter \<Rightarrow> compiledFilter ''a.txt'' \<and> compiledFilter ''b.txt'') \<and>
   RmRxFileVersions (example_world [file_a, file_b] failing) example_state [] ''.*'' 0 ''H~'' False =
     (Err (''Failed to delete the file versions for a.txt: '' @
           ''Failed to make the HTTP DELETE request to http://h/api/file/1/versions'' @
           '' (status: 500 Internal Server Error): boom''),
      [CatalogFetch,
       HttpDo PlainClient
         \<lparr>Method = ''DELETE'', URL = ''http://h/api/file/1/versions'',
          Authorization = ''Bearer tok'', ContentType = Some ''application/json'',
          Body = Some ''{min:0,max:2}''\<rparr>])"
  by (simp add: RmRxFileVersions_def resolveMaxVersion_def eval_defs example_defs request_defs)

text \<open>
  Claim C1, amended. In the batch prune the first failing deletion ends the batch. When
  the catalog entries before a matched file were processed without failure and the
  deletion for that file fails, be it that the request returns an error, that the body
  does not unmarshal, or that the status flag is false, the operation returns that error at
  once: the result does not depend on the entries after it, and the record of events ends
  with the failed request, so nothing is sent or printed for any later entry.
\<close>

theorem batch_prune_stops_at_first_failure:
  assumes catalog: "GetAllFileHashes w tr = Inr (pre @ fi # rest)"
    and compiled: "regexp_Compile w pattern = Inr compiledFilter"
    and before: "RmRxFileVersions_loop w s compiledFilter minVersion maxVersionStr False
                   (tr @ [CatalogFetch]) pre = (Ok (), tr1)"
    and name: "DecryptString w (FileName fi) = Inr plaintextFilename"
    and matched: "compiledFilter plaintextFilename"
    and resolved: "resolveMaxVersion maxVersionStr fi = Ok maxVersion"
    and below: "\<not> VersionNumber (CurrentVersion fi) \<le>s maxVersion"
  shows "(RunAuthRequest w s tr1 (versions_target s (FileID fi)) ''DELETE'' (AuthToken s)
            (DeleteVersionsBody \<lparr>MinVersion = minVersion, MaxVersion = maxVersion\<rparr>) =
            (Err e, tr2) \<longrightarrow>
          RmRxFileVersions w s tr pattern minVersion maxVersionStr False =
            (Err (''Failed to delete the file versions for '' @ plaintextFilename @ '': '' @ e),
             tr2)) \<and>
         (RunAuthRequest w s tr1 (versions_target s (FileID fi)) ''DELETE'' (AuthToken s)
            (DeleteVersionsBody \<lparr>MinVersion = minVersion, MaxVersion = maxVersion\<rparr>) =
            (Ok body, tr2) \<and>
          json_Unmarshal_DeleteVersions w body = Inl err \<longrightarrow>
          RmRxFileVersions w s tr pattern minVersion maxVersionStr False =
            (Err (''Failed to delete the file versions for '' @ plaintextFilename @ '': '' @ err),
             tr2)) \<and>
         (RunAuthRequest w s tr1 (versions_target s (FileID fi)) ''DELETE'' (AuthToken s)
            (DeleteVersionsBody \<lparr>MinVersion = minVersion, MaxVersion = maxVersion\<rparr>) =
            (Ok body, tr2) \<and>
          json_Unmarshal_DeleteVersions w body = Inr r \<and> \<not> Status r \<longrightarrow>
          RmRxFileVersions w s tr pattern minVersion maxVersionStr False =
            (Err failed_status, tr2))"
proof -
  have whole: "RmRxFileVersions w s tr pattern minVersion maxVersionStr False =
      RmRxFileVersions_loop w s compiledFilter minVersion maxVersionStr False tr1 (fi # rest)"
    using catalog compiled RmRxFileVersions_loop_append [OF before, of "fi # rest"]
    by (simp add: RmRxFileVersions_def)
  show ?thesis
    unfolding whole using name matched resolved below by simp
qed

theorem batch_prune_stops_at_first_failure_witness:
  "RmRxFileVersions
     (example_world [file_a, file_b, file_single] (failing_for ''http://h/api/file/2/versions''))
     example_state [] ''.*'' 0 ''H~'' False =
     (Err (''Failed to delete the file versions for b.txt: '' @
           ''Failed to make the HTTP DELETE request to http://h/api/file/2/versions'' @
           '' (status: 500 Internal Server Error): boom''),
      [CatalogFetch,
       HttpDo PlainClient
         \<lparr>Method = ''DELETE'', URL = ''http://h/api/file/1/versions'',
          Authorization = ''Bearer tok'', ContentType = Some ''application/json'',
          Body = Some ''{min:0,max:2}''\<rparr>,
       Printf (''a.txt -- successfully removed versions 0 to 2.'' @ [CHR 0x0A]),
       HttpDo PlainClient
         \<lparr>Method = ''DELETE'', URL = ''http://h/api/file/2/versions'',
          Authorization = ''Bearer tok'', ContentType = Some ''application/json'',
          Body = Some ''{min:0,max:0}''\<rparr>]) \<and>
   RmRxFileVersions (example_world [file_a, file_b] garbled) example_state [] ''.*'' 0 ''H~'' False =
     (Err ''Failed to delete the file versions for a.txt: invalid character'',
      [CatalogFetch,
       HttpDo PlainClient
         \<lparr>Method = ''DELETE'', URL = ''http://h/api/file/1/versions'',
          Authorization = ''Bearer tok'', ContentType = Some ''application/json'',
          Body = Some ''{min:0,max:2}''\<rparr>]) \<and>
   RmRxFileVersions (example_world [file_a, file_b] rejecting) example_state [] ''.*'' 0 ''H~'' False =
     (Err failed_status,
      [CatalogFetch,
       HttpDo PlainClient
         \<lparr>Method = ''DELETE'', URL = ''http://h/api/file/1/versions'',
          Authorization = ''Bearer tok'', ContentType = Some ''application/json'',
          Body = Some ''{min:0,max:2}''\<rparr>])"
proof -
  let ?w1 = "example_world [file_a, file_b, file_single]
               (failing_for ''http://h/api/file/2/versions'')"
  let ?w2 = "example_world [file_a, file_b] garbled"
  let ?w3 = "example_world [file_a, file_b] rejecting"
  let ?all = "\<lambda>name :: string. True"
  let ?r1 = "\<lparr>Method = ''DELETE'', URL = ''http://h/api/file/1/versions'',
          Authorization = ''Bearer tok'', ContentType = Some ''application/json'',
          Body = Some ''{min:0,max:2}''\<rparr>"
  let ?r2 = "\<lparr>Method = ''DELETE'', URL = ''http://h/api/file/2/versions'',
          Authorization = ''Bearer tok'', ContentType = Some ''application/json'',
          Body = Some ''{min:0,max:0}''\<rparr>"
  let ?tr1 = "[CatalogFetch, HttpDo PlainClient ?r1,
               Printf (''a.txt -- successfully removed versions 0 to 2.'' @ [CHR 0x0A])]"
  note defs = resolveMaxVersion_def removed_versions_def eval_defs example_defs request_defs
    garbled_def failing_for_def
  have c1: "GetAllFileHashes ?w1 [] = Inr ([file_a] @ file_b # [file_single])"
    by (simp add: example_defs)
  have c2: "GetAllFileHashes ?w2 [] = Inr ([] @ file_a # [file_b])"
    by (simp add: example_defs)
  have c3: "GetAllFileHashes ?w3 [] = Inr ([] @ file_a # [file_b])"
    by (simp add: example_defs)
  have p1: "regexp_Compile ?w1 ''.*'' = Inr ?all" by (simp add: example_defs)
  have p2: "regexp_Compile ?w2 ''.*'' = Inr ?all" by (simp add: example_defs)
  have p3: "regexp_Compile ?w3 ''.*'' = Inr ?all" by (simp add: example_defs)
  have b1: "RmRxFileVersions_loop ?w1 example_state ?all 0 ''H~'' False ([] @ [CatalogFetch])
              [file_a] = (Ok (), ?tr1)"
    by (simp add: defs)
  have b2: "RmRxFileVersions_loop ?w2 example_state ?all 0 ''H~'' False ([] @ [CatalogFetch])
              [] = (Ok (), [CatalogFetch])"
    by simp
  have b3: "RmRxFileVersions_loop ?w3 example_state ?all 0 ''H~'' False ([] @ [CatalogFetch])
              [] = (Ok (), [CatalogFetch])"
    by simp
  have n1: "DecryptString ?w1 (FileName file_b) = Inr ''b.txt''" by (simp add: example_defs)
  have n2: "DecryptString ?w2 (FileName file_a) = Inr ''a.txt''" by (simp add: example_defs)
  have n3: "DecryptString ?w3 (FileName file_a) = Inr ''a.txt''" by (simp add: example_defs)
  have m: "?all ''b.txt''" "?all ''a.txt''" by simp_all
  have v1: "resolveMaxVersion ''H~'' file_b = Ok 0" by (simp add: defs)
  have v2: "resolveMaxVersion ''H~'' file_a = Ok 2" by (simp add: defs)
  have l1: "\<not> VersionNumber (CurrentVersion file_b) \<le>s 0" by (simp add: defs)
  have l2: "\<not> VersionNumber (CurrentVersion file_a) \<le>s 2" by (simp add: defs)
  have f1: "RunAuthRequest ?w1 example_state ?tr1 (versions_target example_state (FileID file_b))
              ''DELETE'' (AuthToken example_state)
              (DeleteVersionsBody \<lparr>MinVersion = 0, MaxVersion = 0\<rparr>) =
            (Err (''Failed to make the HTTP DELETE request to http://h/api/file/2/versions'' @
                  '' (status: 500 Internal Server Error): boom''),
             ?tr1 @ [HttpDo PlainClient ?r2])"
    by (simp add: defs)
  have f2: "RunAuthRequest ?w2 example_state [CatalogFetch]
              (versions_target example_state (FileID file_a))
              ''DELETE'' (AuthToken example_state)
              (DeleteVersionsBody \<lparr>MinVersion = 0, MaxVersion = 2\<rparr>) =
            (Ok ''<html>'', [CatalogFetch, HttpDo PlainClient ?r1]) \<and>
            json_Unmarshal_DeleteVersions ?w2 ''<html>'' = Inl ''invalid character''"
    by (simp add: defs)
  have f3: "RunAuthRequest ?w3 example_state [CatalogFetch]
              (versions_target example_state (FileID file_a))
              ''DELETE'' (AuthToken example_state)
              (DeleteVersionsBody \<lparr>MinVersion = 0, MaxVersion = 2\<rparr>) =
            (Ok ''{status:false}'', [CatalogFetch, HttpDo PlainClient ?r1]) \<and>
            json_Unmarshal_DeleteVersions ?w3 ''{status:false}'' = Inr \<lparr>Status = False\<rparr> \<and>
            \<not> Status \<lparr>Status = False\<rparr>"
    by (simp add: defs)
  note main = batch_prune_stops_at_first_failure
  from main [OF c1 p1 b1 n1 m(1) v1 l1, THEN conjunct1, rule_format, OF f1]
       main [OF c2 p2 b2 n2 m(2) v2 l2, THEN conjunct2, THEN conjunct1, rule_format, OF f2]
       main [OF c3 p3 b3 n3 m(2) v2 l2, THEN conjunct2, THEN conjunct2, rule_format, OF f3]
  show ?thesis by simp
qed

section \<open>The sentinel on a file with a single version\<close>

text \<open>
  With \<open>H~\<close> the resolved maximum is the current version number minus one, which is
  below the current version number unless the subtraction wraps around: the skip can
  never apply to the sentinel.
\<close>

lemma sentinel_below_current:
  fixes cur :: goint
  assumes "sint cur \<noteq> - (2 ^ 63)"
  shows "\<not> cur \<le>s cur - 1"
proof -
  have lo: "- (2 ^ 63) \<le> sint cur" using sint_ge [of cur] by simp
  have hi: "sint cur < 2 ^ 63" using sint_lt [of cur] by simp
  have "sint (cur - 1) = signed_take_bit 63 (sint cur - 1)"
    by (simp add: sint_word_ariths)
  also have "\<dots> = sint cur - 1"
    using lo hi assms by (intro signed_take_bit_int_eq_self) simp_all
  finally show ?thesis by (simp add: word_sle_eq)
qed

text \<open>
  Claim C2. The source's comment names the case: a file with only one version and
  \<open>H~\<close> is meant to fall under the silent skip. The code does otherwise. For a matched
  file whose current version number is 0 the sentinel resolves to \<open>-1\<close>, the test
  \<open>maxVersion >= current\<close> is false, and outside a dry run a \<open>DELETE\<close> for the range
  \<open>[0, -1]\<close> is sent and reported as done.
\<close>

theorem sentinel_on_single_version_sends_delete:
  "VersionNumber (CurrentVersion file_single) = 0 \<and>
   resolveMaxVersion ''H~'' file_single = Ok (- 1) \<and>
   RmRxFileVersions (example_world [file_single] accepting) example_state [] ''.*'' 0 ''H~'' False =
     (Ok (),
      [CatalogFetch,
       HttpDo PlainClient
         \<lparr>Method = ''DELETE'', URL = ''http://h/api/file/7/versions'',
          Authorization = ''Bearer tok'', ContentType = Some ''application/json'',
          Body = Some ''{min:0,max:-1}''\<rparr>,
       Printf (''c.txt -- successfully removed versions 0 to -1.'' @ [CHR 0x0A])])"
  by (simp add: RmRxFileVersions_def resolveMaxVersion_def removed_versions_def
      eval_defs example_defs request_defs)

section \<open>Which failures come back to the caller\<close>

lemma returned_simps:
  "returned (Ok v)" "returned (Err e)" "\<not> returned (Fatal m)" "\<not> returned (Panic m)"
  by (simp_all add: returned_def)

lemma returned_cases: "returned r \<Longrightarrow> (\<exists>v. r = Ok v) \<or> (\<exists>e. r = Err e)"
  by (cases r) (simp_all add: returned_def)

lemma findByFilename_returned: "returned (findByFilename w filename files)"
  by (induction files) (simp_all add: returned_def split: sum.split)

lemma GetFileInfoByFilename_returned: "returned (fst (GetFileInfoByFilename w s tr filename))"
proof (cases "GetAllFileHashes w tr")
  case (Inl err)
  then show ?thesis by (simp add: GetFileInfoByFilename_def returned_def)
next
  case (Inr allFileInfos)
  then show ?thesis by (simp add: GetFileInfoByFilename_def findByFilename_returned)
qed

lemma handleResponse_returned:
  assumes "\<And>err. d \<noteq> DoError None err"
  shows "returned (handleResponse method target d)"
proof (cases d)
  case (DoResponse resp)
  then show ?thesis by (simp add: handleResponse_def returned_def split: sum.split)
next
  case (DoError resp err)
  with assms [of err] obtain r where "resp = Some r" by (cases resp) simp_all
  with DoError show ?thesis by (simp add: handleResponse_def returned_def)
qed

lemma RunAuthRequest_returned:
  assumes transport: "\<And>tr client req err. client_Do w tr client req \<noteq> DoError None err"
    and built: "\<And>method target. http_NewRequest w method target = None"
  shows "returned (fst (RunAuthRequest w s tr target method token reqBody))"
proof -
  have build: "(\<exists>m. buildAuthRequest w s target method token b = Err m) \<or>
      (\<exists>client req. buildAuthRequest w s target method token b = Ok (client, req))" for b
    by (simp add: buildAuthRequest_def getHTTPClient_def built split: option.split sum.split)
  have resp: "returned (handleResponse method target (client_Do w tr c r))" for c r
    by (rule handleResponse_returned) (rule transport)
  show ?thesis
  proof (cases reqBody)
    case NilBody
    with build [of None] show ?thesis
      by (elim disjE exE) (simp_all add: RunAuthRequest_def Let_def resp, simp add: returned_def)
  next
    case (ByteSlice b)
    with build [of b] show ?thesis
      by (elim disjE exE) (simp_all add: RunAuthRequest_def Let_def resp, simp add: returned_def)
  next
    case (DeleteVersionsBody v)
    show ?thesis
    proof (cases "json_Marshal w v")
      case (Inl err)
      with DeleteVersionsBody show ?thesis by (simp add: RunAuthRequest_def returned_def)
    next
      case (Inr js)
      with DeleteVersionsBody build [of "Some js"] show ?thesis
        by (elim disjE exE) (simp_all add: RunAuthRequest_def Let_def resp, simp add: returned_def)
    qed
  qed
qed

lemma RunAuthRequest_outcomes:
  assumes transport: "\<And>tr client req err. client_Do w tr client req \<noteq> DoError None err"
    and built: "\<And>method target. http_NewRequest w method target = None"
  shows "(\<exists>body tr1. RunAuthRequest w s tr target method token reqBody = (Ok body, tr1)) \<or>
         (\<exists>e tr1. RunAuthRequest w s tr target method token reqBody = (Err e, tr1))"
  using returned_cases [OF RunAuthRequest_returned [OF transport built, of s tr target "method" "token" reqBody]]
  by (metis prod.collapse)


lemma GetFileInfoByFilename_outcomes:
  "(\<exists>fi. GetFileInfoByFilename w s tr filename = (Ok fi, tr @ [CatalogFetch])) \<or>
   (\<exists>e. GetFileInfoByFilename w s tr filename = (Err e, tr @ [CatalogFetch]))"
  using returned_cases [OF GetFileInfoByFilename_returned [of w s tr filename]]
    GetFileInfoByFilename_trace [of w s tr filename]
  by (metis prod.collapse)

lemma RmFile_returned:
  assumes transport: "\<And>tr client req err. client_Do w tr client req \<noteq> DoError None err"
    and built: "\<And>method target. http_NewRequest w method target = None"
  shows "returned (fst (RmFile w s tr filename dryRun))"
  using GetFileInfoByFilename_outcomes [of w s tr filename]
proof (elim disjE exE)
  fix e assume "GetFileInfoByFilename w s tr filename = (Err e, tr @ [CatalogFetch])"
  then show ?thesis by (simp add: RmFile_def returned_def)
next
  fix fi assume fi: "GetFileInfoByFilename w s tr filename = (Ok fi, tr @ [CatalogFetch])"
  from RunAuthRequest_outcomes [OF transport built, of s "tr @ [CatalogFetch]"
         "file_target s (FileID fi)" "''DELETE''" "AuthToken s" NilBody] fi
  show ?thesis
    by (elim disjE exE) (simp_all add: RmFile_def returned_def)
qed

lemma RmFileByID_returned:
  assumes transport: "\<And>tr client req err. client_Do w tr client req \<noteq> DoError None err"
    and built: "\<And>method target. http_NewRequest w method target = None"
  shows "returned (fst (RmFileByID w s tr fileID))"
  using RunAuthRequest_outcomes [OF transport built, of s tr
         "file_target s fileID" "''DELETE''" "AuthToken s" NilBody]
  by (elim disjE exE) (simp_all add: RmFileByID_def returned_def)

lemma GetMissingChunksForFile_returned:
  assumes transport: "\<And>tr client req err. client_Do w tr client req \<noteq> DoError None err"
    and built: "\<And>method target. http_NewRequest w method target = None"
  shows "returned (fst (GetMissingChunksForFile w s tr fileID))"
  using RunAuthRequest_outcomes [OF transport built, of s tr
         "file_target s fileID" "''GET''" "AuthToken s" NilBody]
  by (elim disjE exE) (simp_all add: GetMissingChunksForFile_def returned_def split: sum.split)

lemma GetFileVersions_returned:
  assumes transport: "\<And>tr client req err. client_Do w tr client req \<noteq> DoError None err"
    and built: "\<And>method target. http_NewRequest w method target = None"
  shows "returned (fst (GetFileVersions w s tr filename))"
  using GetFileInfoByFilename_outcomes [of w s tr filename]
proof (elim disjE exE)
  fix e assume "GetFileInfoByFilename w s tr filename = (Err e, tr @ [CatalogFetch])"
  then show ?thesis by (simp add: GetFileVersions_def returned_def)
next
  fix fi assume fi: "GetFileInfoByFilename w s tr filename = (Ok fi, tr @ [CatalogFetch])"
  from RunAuthRequest_outcomes [OF transport built, of s "tr @ [CatalogFetch]"
         "versions_target s (FileID fi)" "''GET''" "AuthToken s" NilBody] fi
  show ?thesis
    by (elim disjE exE) (simp_all add: GetFileVersions_def returned_def split: sum.split)
qed

lemma RmFileVersions_returned:
  assumes transport: "\<And>tr client req err. client_Do w tr client req \<noteq> DoError None err"
    and built: "\<And>method target. http_NewRequest w method target = None"
  shows "returned (fst (RmFileVersions w s tr filename minVersion maxVersion dryRun))"
  using GetFileInfoByFilename_outcomes [of w s tr filename]
proof (elim disjE exE)
  fix e assume "GetFileInfoByFilename w s tr filename = (Err e, tr @ [CatalogFetch])"
  then show ?thesis by (simp add: RmFileVersions_def returned_def)
next
  fix fi assume fi: "GetFileInfoByFilename w s tr filename = (Ok fi, tr @ [CatalogFetch])"
  from RunAuthRequest_outcomes [OF transport built, of s "tr @ [CatalogFetch]"
         "versions_target s (FileID fi)" "''DELETE''" "AuthToken s"
         "DeleteVersionsBody \<lparr>MinVersion = minVersion, MaxVersion = maxVersion\<rparr>"] fi
  show ?thesis
    by (elim disjE exE) (simp_all add: RmFileVersions_def returned_def split: sum.split)
qed

lemma RmRxFiles_loop_returned:
  assumes transport: "\<And>tr client req err. client_Do w tr client req \<noteq> DoError None err"
    and built: "\<And>method target. http_NewRequest w method target = None"
  shows "returned (fst (RmRxFiles_loop w s compiledFilter dryRun tr files))"
proof (induction files arbitrary: tr)
  case Nil
  show ?case by (simp add: returned_def)
next
  case (Cons fi rest)
  show ?case
  proof (cases "DecryptString w (FileName fi)")
    case (Inl err)
    then show ?thesis by (simp add: returned_def)
  next
    case (Inr name)
    from RunAuthRequest_outcomes [OF transport built, of s tr
         "file_target s (FileID fi)" "''DELETE''" "AuthToken s" NilBody]
    show ?thesis
    proof (elim disjE exE)
      fix e tr1
      assume "RunAuthRequest w s tr (file_target s (FileID fi)) ''DELETE'' (AuthToken s) NilBody =
                (Err e, tr1)"
      with Inr Cons [of tr] Cons [of "tr @ [removed_file name]"]
      show ?thesis by (cases dryRun) (simp_all add: returned_simps)
    next
      fix body tr1
      assume "RunAuthRequest w s tr (file_target s (FileID fi)) ''DELETE'' (AuthToken s) NilBody =
                (Ok body, tr1)"
      with Inr Cons [of tr] Cons [of "tr @ [removed_file name]"]
        Cons [of "tr1 @ [removed_file name]"]
      show ?thesis by (cases dryRun) simp_all
    qed
  qed
qed

lemma RmRxFiles_returned:
  assumes transport: "\<And>tr client req err. client_Do w tr client req \<noteq> DoError None err"
    and built: "\<And>method target. http_NewRequest w method target = None"
  shows "returned (fst (RmRxFiles w s tr pattern dryRun))"
proof (cases "GetAllFileHashes w tr")
  case (Inl err)
  then show ?thesis by (simp add: RmRxFiles_def returned_def)
next
  case files: (Inr allFiles)
  show ?thesis
  proof (cases "regexp_Compile w pattern")
    case (Inl err)
    with files show ?thesis by (simp add: RmRxFiles_def returned_def)
  next
    case (Inr compiledFilter)
    with files RmRxFiles_loop_returned [OF transport built] show ?thesis
      by (simp add: RmRxFiles_def)
  qed
qed


lemma resolveMaxVersion_cases:
  "(\<exists>v. resolveMaxVersion maxVersionStr fi = Ok v) \<or>
   (maxVersionStr \<noteq> ''H~'' \<and>
    (\<exists>err. Atoi maxVersionStr = Inl err \<and>
       resolveMaxVersion maxVersionStr fi = Fatal (parse_failure err)))"
  by (cases "Atoi maxVersionStr") (simp_all add: resolveMaxVersion_def parse_failure_def)

lemma RmRxFileVersions_loop_outcome:
  assumes transport: "\<And>tr client req err. client_Do w tr client req \<noteq> DoError None err"
    and built: "\<And>method target. http_NewRequest w method target = None"
  shows "returned (fst (RmRxFileVersions_loop w s compiledFilter minVersion maxVersionStr dryRun
                          tr files)) \<or>
         (maxVersionStr \<noteq> ''H~'' \<and>
          (\<exists>err. Atoi maxVersionStr = Inl err \<and>
             fst (RmRxFileVersions_loop w s compiledFilter minVersion maxVersionStr dryRun
                    tr files) = Fatal (parse_failure err)))"
proof (induction files arbitrary: tr)
  case Nil
  show ?case by (simp add: returned_simps)
next
  case (Cons fi rest)
  show ?case
  proof (cases "DecryptString w (FileName fi)")
    case (Inl err)
    then show ?thesis by (simp add: returned_simps)
  next
    case (Inr name)
    show ?thesis
    proof (cases "compiledFilter name")
      case False
      with Inr Cons [of tr] show ?thesis by simp
    next
      case True
      from resolveMaxVersion_cases [of maxVersionStr fi]
      show ?thesis
      proof (elim disjE exE conjE)
        fix err
        assume "maxVersionStr \<noteq> ''H~''" "Atoi maxVersionStr = Inl err"
          "resolveMaxVersion maxVersionStr fi = Fatal (parse_failure err)"
        with Inr True show ?thesis by simp
      next
        fix maxVersion
        assume Ok: "resolveMaxVersion maxVersionStr fi = Ok maxVersion"
        show ?thesis
        proof (cases "VersionNumber (CurrentVersion fi) \<le>s maxVersion")
          case skipped: True
          with Inr True Ok Cons [of tr] show ?thesis by simp
        next
          case pruned: False
          show ?thesis
          proof (cases dryRun)
            case dry: True
            with Inr True Ok pruned
              Cons [of "tr @ [removed_versions name minVersion maxVersion]"]
            show ?thesis by simp
          next
            case wet: False
            from RunAuthRequest_outcomes [OF transport built, of s tr
                   "versions_target s (FileID fi)" "''DELETE''" "AuthToken s"
                   "DeleteVersionsBody \<lparr>MinVersion = minVersion, MaxVersion = maxVersion\<rparr>"]
            show ?thesis
            proof (elim disjE exE)
              fix e tr1
              assume "RunAuthRequest w s tr (versions_target s (FileID fi)) ''DELETE''
                        (AuthToken s)
                        (DeleteVersionsBody
                           \<lparr>MinVersion = minVersion, MaxVersion = maxVersion\<rparr>) = (Err e, tr1)"
              with Inr True Ok pruned wet show ?thesis by (simp add: returned_simps)
            next
              fix body tr1
              assume run: "RunAuthRequest w s tr (versions_target s (FileID fi)) ''DELETE''
                        (AuthToken s)
                        (DeleteVersionsBody
                           \<lparr>MinVersion = minVersion, MaxVersion = maxVersion\<rparr>) = (Ok body, tr1)"
              show ?thesis
              proof (cases "json_Unmarshal_DeleteVersions w body")
                case (Inl err)
                with Inr True Ok pruned wet run show ?thesis by (simp add: returned_simps)
              next
                case resp: (Inr resp)
                show ?thesis
                proof (cases "Status resp")
                  case accepted: True
                  with Inr True Ok pruned wet run resp
                    Cons [of "tr1 @ [removed_versions name minVersion maxVersion]"]
                  show ?thesis by simp
                next
                  case rejected: False
                  with Inr True Ok pruned wet run resp show ?thesis
                    by (simp add: returned_simps)
                qed
              qed
            qed
          qed
        qed
      qed
    qed
  qed
qed

lemma RmRxFileVersions_outcome:
  assumes transport: "\<And>tr client req err. client_Do w tr client req \<noteq> DoError None err"
    and built: "\<And>method target. http_NewRequest w method target = None"
  shows "returned (fst (RmRxFileVersions w s tr pattern minVersion maxVersionStr dryRun)) \<or>
         (maxVersionStr \<noteq> ''H~'' \<and>
          (\<exists>err. Atoi maxVersionStr = Inl err \<and>
             fst (RmRxFileVersions w s tr pattern minVersion maxVersionStr dryRun) =
               Fatal (parse_failure err)))"
proof (cases "GetAllFileHashes w tr")
  case (Inl err)
  then show ?thesis by (simp add: RmRxFileVersions_def returned_simps)
next
  case files: (Inr allFiles)
  show ?thesis
  proof (cases "regexp_Compile w pattern")
    case (Inl err)
    with files show ?thesis by (simp add: RmRxFileVersions_def returned_simps)
  next
    case (Inr compiledFilter)
    with files RmRxFileVersions_loop_outcome [OF transport built, of s compiledFilter
      minVersion maxVersionStr dryRun "tr @ [CatalogFetch]" allFiles]
    show ?thesis by (simp add: RmRxFileVersions_def)
  qed
qed

lemma RmRxFileVersions_loop_fatal:
  assumes "list_all (unmatched w compiledFilter) pre"
    and "DecryptString w (FileName fi) = Inr plaintextFilename"
    and "compiledFilter plaintextFilename"
    and "maxVersionStr \<noteq> ''H~''"
    and "Atoi maxVersionStr = Inl err"
  shows "RmRxFileVersions_loop w s compiledFilter minVersion maxVersionStr dryRun tr
           (pre @ fi # rest) = (Fatal (parse_failure err), tr)"
  using assms
  by (induction pre)
     (auto simp: unmatched_def resolveMaxVersion_def parse_failure_def split: sum.splits)

lemma forEachChunk_loop_returned:
  "returned (fst (forEachChunk_loop filename eachFunc chunkSize localChunkCount i f yielded))"
proof (induction filename eachFunc chunkSize localChunkCount i f yielded
       rule: forEachChunk_loop.induct)
  case (1 filename eachFunc chunkSize localChunkCount i f yielded)
  show ?case
  proof (cases "i < localChunkCount")
    case False
    then show ?thesis by (subst forEachChunk_loop.simps) (simp add: returned_simps)
  next
    case True
    obtain clampedBuffer err where rd:
      "io_ReadAtLeast f (nat chunkSize) = (clampedBuffer, err)"
      by (cases "io_ReadAtLeast f (nat chunkSize)")
    show ?thesis
    proof (cases "readFailure filename localChunkCount i (length clampedBuffer) err")
      case (Some msg)
      with True rd show ?thesis
        by (subst forEachChunk_loop.simps) (simp add: returned_simps)
    next
      case None
      obtain contLoop e where ef: "eachFunc yielded i clampedBuffer = (contLoop, e)"
        by (cases "eachFunc yielded i clampedBuffer")
      show ?thesis
      proof (cases e)
        case (Some msg)
        with True rd None ef show ?thesis
          by (subst forEachChunk_loop.simps) (simp add: returned_simps)
      next
        case noerr: None
        show ?thesis
        proof (cases contLoop)
          case False
          with True rd None ef noerr show ?thesis
            by (subst forEachChunk_loop.simps) (simp add: returned_simps)
        next
          case cont: True
          from "1" [OF True rd [symmetric] None ef [symmetric] noerr] cont
          have "returned (fst (forEachChunk_loop filename eachFunc chunkSize localChunkCount
                  (i + 1) (drop (nat chunkSize) f) (yielded @ [(i, clampedBuffer)])))"
            by simp
          with True rd None ef noerr cont show ?thesis
            by (subst forEachChunk_loop.simps) simp
        qed
      qed
    qed
  qed
qed


text \<open>
  Claim C3 as stated fails. With a maximum version string that is neither \<open>H~\<close> nor
  a number, the batch prune reaches the first matching file and ends the process through
  \<open>log.Fatalf\<close>; nothing is returned to the caller.
\<close>

theorem parse_failure_is_fatal_counterexample:
  "Atoi ''abc'' = Inl (NumError ''abc'' ''invalid syntax'') \<and>
   RmRxFileVersions (example_world [file_a] accepting) example_state [] ''.*'' 0 ''abc'' False =
     (Fatal (''Failed to parse the supplied max version as a number: '' @
             NumError ''abc'' ''invalid syntax''), [CatalogFetch])"
  by (simp add: RmRxFileVersions_def resolveMaxVersion_def Atoi_def is_digit_def example_defs)

text \<open>
  For the record, the other case the claim names: when \<open>client.Do\<close> fails without a
  response, \<open>RunAuthRequest\<close> reads \<open>resp.Status\<close> of a nil response and panics.
\<close>

lemma transport_failure_panics:
  "RunAuthRequest (example_world [] unreachable) example_state [] ''http://h/api/file/1''
     ''DELETE'' ''tok'' NilBody =
     (Panic nil_deref,
      [HttpDo PlainClient
         \<lparr>Method = ''DELETE'', URL = ''http://h/api/file/1'', Authorization = ''Bearer tok'',
          ContentType = None, Body = None\<rparr>])"
  by (simp add: request_defs example_defs)

text \<open>
  Claim C3, amended. Leaving aside a transport failure that brings no response, and given
  that \<open>http.NewRequest\<close> accepts the method and URL: the dispatcher, name resolution,
  the removals, the version listing, the missing chunk lookup and the single-file prune
  always come back to their caller, with a value or an error; the chunk stream does so
  for a chunk size that is not negative. The batch prune comes back to its caller or ends
  the process through \<open>log.Fatalf\<close>, and it does the latter exactly for a maximum
  version string that is neither \<open>H~\<close> nor accepted by \<open>strconv.Atoi\<close>, at the
  first catalog entry that matches the pattern, in a dry run as well.
\<close>

theorem errors_return_except_parse_failure:
  assumes transport: "\<And>tr client req err. client_Do w tr client req \<noteq> DoError None err"
    and built: "\<And>method target. http_NewRequest w method target = None"
  shows "returned (fst (RunAuthRequest w s tr target method token reqBody)) \<and>
         returned (fst (GetFileInfoByFilename w s tr filename)) \<and>
         returned (fst (RmFile w s tr filename dryRun)) \<and>
         returned (fst (RmRxFiles w s tr pattern dryRun)) \<and>
         returned (fst (RmFileByID w s tr fileID)) \<and>
         returned (fst (GetFileVersions w s tr filename)) \<and>
         returned (fst (GetMissingChunksForFile w s tr fileID)) \<and>
         returned (fst (RmFileVersions w s tr filename minVersion maxVersion dryRun)) \<and>
         (returned (fst (RmRxFileVersions w s tr pattern minVersion maxVersionStr dryRun)) \<or>
          (maxVersionStr \<noteq> ''H~'' \<and>
           (\<exists>err. Atoi maxVersionStr = Inl err \<and>
              fst (RmRxFileVersions w s tr pattern minVersion maxVersionStr dryRun) =
                Fatal (parse_failure err)))) \<and>
         (GetAllFileHashes w tr = Inr (pre @ fi # rest) \<and>
          regexp_Compile w pattern = Inr compiledFilter \<and>
          list_all (unmatched w compiledFilter) pre \<and>
          DecryptString w (FileName fi) = Inr plaintextFilename \<and>
          compiledFilter plaintextFilename \<and>
          maxVersionStr \<noteq> ''H~'' \<and> Atoi maxVersionStr = Inl err \<longrightarrow>
            RmRxFileVersions w s tr pattern minVersion maxVersionStr dryRun =
              (Fatal (parse_failure err), tr @ [CatalogFetch])) \<and>
         (0 \<le> chunkSize \<longrightarrow>
            returned (fst (forEachChunk os_Open chunkSize path localChunkCount eachFunc)))"
proof (intro conjI impI)
  show "returned (fst (RunAuthRequest w s tr target method token reqBody))"
    by (rule RunAuthRequest_returned [OF transport built])
  show "returned (fst (GetFileInfoByFilename w s tr filename))"
    by (rule GetFileInfoByFilename_returned)
  show "returned (fst (RmFile w s tr filename dryRun))"
    by (rule RmFile_returned [OF transport built])
  show "returned (fst (RmRxFiles w s tr pattern dryRun))"
    by (rule RmRxFiles_returned [OF transport built])
  show "returned (fst (RmFileByID w s tr fileID))"
    by (rule RmFileByID_returned [OF transport built])
  show "returned (fst (GetFileVersions w s tr filename))"
    by (rule GetFileVersions_returned [OF transport built])
  show "returned (fst (GetMissingChunksForFile w s tr fileID))"
    by (rule GetMissingChunksForFile_returned [OF transport built])
  show "returned (fst (RmFileVersions w s tr filename minVersion maxVersion dryRun))"
    by (rule RmFileVersions_returned [OF transport built])
  show "returned (fst (RmRxFileVersions w s tr pattern minVersion maxVersionStr dryRun)) \<or>
          (maxVersionStr \<noteq> ''H~'' \<and>
           (\<exists>err. Atoi maxVersionStr = Inl err \<and>
              fst (RmRxFileVersions w s tr pattern minVersion maxVersionStr dryRun) =
                Fatal (parse_failure err)))"
    by (rule RmRxFileVersions_outcome [OF transport built])
next
  assume a: "GetAllFileHashes w tr = Inr (pre @ fi # rest) \<and>
          regexp_Compile w pattern = Inr compiledFilter \<and>
          list_all (unmatched w compiledFilter) pre \<and>
          DecryptString w (FileName fi) = Inr plaintextFilename \<and>
          compiledFilter plaintextFilename \<and>
          maxVersionStr \<noteq> ''H~'' \<and> Atoi maxVersionStr = Inl err"
  then have p: "list_all (unmatched w compiledFilter) pre"
      "DecryptString w (FileName fi) = Inr plaintextFilename"
      "compiledFilter plaintextFilename" "maxVersionStr \<noteq> ''H~''"
      "Atoi maxVersionStr = Inl err"
    by simp_all
  have "RmRxFileVersions_loop w s compiledFilter minVersion maxVersionStr dryRun
               (tr @ [CatalogFetch]) (pre @ fi # rest) =
             (Fatal (parse_failure err), tr @ [CatalogFetch])"
    by (rule RmRxFileVersions_loop_fatal [OF p])
  with a show "RmRxFileVersions w s tr pattern minVersion maxVersionStr dryRun =
              (Fatal (parse_failure err), tr @ [CatalogFetch])"
    by (simp add: RmRxFileVersions_def)
next
  assume "0 \<le> chunkSize"
  then show "returned (fst (forEachChunk os_Open chunkSize path localChunkCount eachFunc))"
    by (simp add: forEachChunk_def forEachChunk_loop_returned returned_simps split: sum.split)
qed

theorem errors_return_except_parse_failure_witness:
  "(\<forall>tr client req err.
      client_Do (example_world [file_b, file_a] accepting) tr client req \<noteq> DoError None err) \<and>
   (\<forall>method target.
      http_NewRequest (example_world [file_b, file_a] accepting) method target = None) \<and>
   returned (fst (RmFileVersions (example_world [file_b, file_a] accepting) example_state []
                    ''a.txt'' 0 5 False)) \<and>
   returned (fst (RmRxFileVersions (example_world [file_b, file_a] accepting) example_state []
                    ''.*'' 0 ''0'' False)) \<and>
   list_all (unmatched (example_world [file_b, file_a] accepting) (\<lambda>name. name = ''a.txt''))
     [file_b] \<and>
   Atoi ''2x'' = Inl (NumError ''2x'' ''invalid syntax'') \<and>
   RmRxFileVersions
     ((example_world [file_b, file_a] accepting)
        \<lparr>regexp_Compile := \<lambda>p. Inr (\<lambda>name. name = ''a.txt'')\<rparr>)
     example_state [] ''a[.]txt'' 0 ''2x'' True =
     (Fatal (parse_failure (NumError ''2x'' ''invalid syntax'')), [CatalogFetch]) \<and>
   (0::int) \<le> 2 \<and>
   returned (fst (forEachChunk (\<lambda>path. Inr ''abcde'') 2 ''f'' 3 (\<lambda>h i c. (True, None))))"
proof -
  let ?w = "example_world [file_b, file_a] accepting"
  let ?v = "?w\<lparr>regexp_Compile := \<lambda>p. Inr (\<lambda>name. name = ''a.txt'')\<rparr>"
  have t: "client_Do ?w tr client req \<noteq> DoError None err" for tr client req err
    by (simp add: example_defs)
  have b: "http_NewRequest ?w verb url = None" for verb url
    by (simp add: example_defs)
  have t': "client_Do ?v tr client req \<noteq> DoError None err" for tr client req err
    by (simp add: example_defs)
  have b': "http_NewRequest ?v verb url = None" for verb url
    by (simp add: example_defs)
  have size: "(0::int) \<le> 2" by simp
  note main = errors_return_except_parse_failure
  have not_skipped: "returned (fst (RmRxFileVersions ?w example_state [] ''.*'' 0 ''0'' False))"
    using main [where w = "?w" and s = example_state and tr = "[]" and pattern = "''.*''"
      and minVersion = 0 and maxVersionStr = "''0''" and dryRun = False, OF t b,
      THEN conjunct2, THEN conjunct2, THEN conjunct2,
      THEN conjunct2, THEN conjunct2, THEN conjunct2, THEN conjunct2, THEN conjunct2,
      THEN conjunct1]
    by (simp add: Atoi_def is_digit_def)
  have hyp: "GetAllFileHashes ?v [] = Inr ([file_b] @ file_a # []) \<and>
      regexp_Compile ?v ''a[.]txt'' = Inr (\<lambda>name. name = ''a.txt'') \<and>
      list_all (unmatched ?v (\<lambda>name. name = ''a.txt'')) [file_b] \<and>
      DecryptString ?v (FileName file_a) = Inr ''a.txt'' \<and>
      ''a.txt'' = ''a.txt'' \<and>
      ''2x'' \<noteq> ''H~'' \<and> Atoi ''2x'' = Inl (NumError ''2x'' ''invalid syntax'')"
    by (simp add: unmatched_def Atoi_def is_digit_def example_defs)
  from main [where w = "?w" and s = example_state and tr = "[]" and filename = "''a.txt''"
         and minVersion = 0 and maxVersion = 5 and dryRun = False, OF t b,
         THEN conjunct2, THEN conjunct2, THEN conjunct2, THEN conjunct2,
         THEN conjunct2, THEN conjunct2, THEN conjunct2, THEN conjunct1]
       main [where w = "?v" and s = example_state and minVersion = 0 and dryRun = True,
         OF t' b', THEN conjunct2, THEN conjunct2, THEN conjunct2, THEN conjunct2,
         THEN conjunct2, THEN conjunct2, THEN conjunct2, THEN conjunct2, THEN conjunct2,
         THEN conjunct1, rule_format, OF hyp]
       main [where w = "?w" and os_Open = "\<lambda>path. Inr ''abcde''" and path = "''f''"
         and localChunkCount = 3 and eachFunc = "\<lambda>h i c. (True, None)", OF t b,
         THEN conjunct2, THEN conjunct2, THEN conjunct2, THEN conjunct2,
         THEN conjunct2, THEN conjunct2, THEN conjunct2, THEN conjunct2, THEN conjunct2,
         THEN conjunct2, rule_format, OF size]
       not_skipped hyp t b
  show ?thesis by (simp add: unmatched_def example_defs)
qed

section \<open>The chunk stream\<close>

lemma loop_done:
  "\<not> i < localChunkCount \<Longrightarrow>
   forEachChunk_loop filename eachFunc chunkSize localChunkCount i f yielded = (Ok (), yielded)"
  by (subst forEachChunk_loop.simps) simp

lemma loop_full_chunk:
  "i < localChunkCount \<Longrightarrow> C \<le> length f \<Longrightarrow>
   forEachChunk_loop filename (\<lambda>h i c. (True, None)) (int C) localChunkCount i f yielded =
   forEachChunk_loop filename (\<lambda>h i c. (True, None)) (int C) localChunkCount (i + 1)
     (drop C f) (yielded @ [(i, take C f)])"
  by (subst forEachChunk_loop.simps) (simp add: io_ReadAtLeast_def readFailure_def)

lemma loop_short_last_chunk:
  "i + 1 = localChunkCount \<Longrightarrow> f \<noteq> [] \<Longrightarrow> length f < C \<Longrightarrow>
   forEachChunk_loop filename (\<lambda>h i c. (True, None)) (int C) localChunkCount i f yielded =
   (Ok (), yielded @ [(i, f)])"
  by (subst forEachChunk_loop.simps)
     (simp add: io_ReadAtLeast_def readFailure_def loop_done)

lemma ceil_div_small: "0 < n \<Longrightarrow> n < C \<Longrightarrow> (n + C - 1) div C = (1::nat)"
  by (rule div_nat_eqI) simp_all

lemma ceil_div_step: "0 < C \<Longrightarrow> C \<le> n \<Longrightarrow> (n + C - 1) div C = Suc ((n - C + C - 1) div C)"
proof -
  assume C: "0 < C" and n: "C \<le> n"
  define a where "a = n - C + C - 1"
  from C n have "n + C - 1 = a + C" by (simp add: a_def)
  moreover from C have "(a + C) div C = Suc (a div C)" by (simp add: div_add_self2)
  ultimately show ?thesis by (simp add: a_def)
qed

lemma numbers_from: "map (\<lambda>k. i + int k) [0..<Suc n] = i # map (\<lambda>k. (i + 1) + int k) [0..<n]"
proof -
  have "[0..<Suc n] = 0 # map Suc [0..<n]"
    by (simp add: upt_conv_Cons map_Suc_upt del: upt_Suc)
  then show ?thesis by (simp add: comp_def add.assoc del: upt_Suc)
qed

lemma loop_exact:
  assumes C: "0 < C"
  shows "localChunkCount = i + int ((length f + C - 1) div C) \<Longrightarrow>
    \<exists>zs. forEachChunk_loop filename (\<lambda>h i c. (True, None)) (int C) localChunkCount i f yielded =
            (Ok (), yielded @ zs) \<and>
         map fst zs = map (\<lambda>k. i + int k) [0..<(length f + C - 1) div C] \<and>
         concat (map snd zs) = f \<and>
         (f = [] \<and> zs = [] \<or>
          f \<noteq> [] \<and> zs \<noteq> [] \<and>
          length (snd (last zs)) = (if length f mod C = 0 then C else length f mod C))"
proof (induction "length f" arbitrary: f i yielded rule: less_induct)
  case less
  let ?loop = "forEachChunk_loop filename (\<lambda>h i c. (True, None)) (int C) localChunkCount"
  consider (empty) "f = []" | (short) "f \<noteq> []" "length f < C" | (full) "C \<le> length f"
    by linarith
  then show ?case
  proof cases
    case empty
    with C have "(length f + C - 1) div C = 0" by simp
    with less.prems empty have "?loop i f yielded = (Ok (), yielded @ [])"
      by (simp add: loop_done)
    with empty \<open>(length f + C - 1) div C = 0\<close> show ?thesis by simp
  next
    case short
    then have n: "(length f + C - 1) div C = 1"
      using ceil_div_small [of "length f" C] by simp
    with less.prems have "i + 1 = localChunkCount" by simp
    with short have "?loop i f yielded = (Ok (), yielded @ [(i, f)])"
      by (simp add: loop_short_last_chunk)
    with short n show ?thesis by simp
  next
    case full
    let ?f' = "drop C f"
    let ?n' = "(length ?f' + C - 1) div C"
    from C full have shorter: "length ?f' < length f" by simp
    from C full have n: "(length f + C - 1) div C = Suc ?n'"
      using ceil_div_step [of C "length f"] by simp
    with less.prems have count: "localChunkCount = (i + 1) + int ?n'" by simp
    from less.hyps [OF shorter count, of "yielded @ [(i, take C f)]"]
    obtain zs where zs: "?loop (i + 1) ?f' (yielded @ [(i, take C f)]) =
        (Ok (), (yielded @ [(i, take C f)]) @ zs)"
      "map fst zs = map (\<lambda>k. (i + 1) + int k) [0..<?n']"
      "concat (map snd zs) = ?f'"
      "?f' = [] \<and> zs = [] \<or>
       ?f' \<noteq> [] \<and> zs \<noteq> [] \<and>
       length (snd (last zs)) = (if length ?f' mod C = 0 then C else length ?f' mod C)"
      by blast
    from n less.prems have "i < localChunkCount" by simp
    with full zs(1) have run: "?loop i f yielded = (Ok (), yielded @ ((i, take C f) # zs))"
      by (simp add: loop_full_chunk)
    have nums: "map fst ((i, take C f) # zs) = map (\<lambda>k. i + int k) [0..<(length f + C - 1) div C]"
      unfolding n numbers_from using zs(2) by simp
    have bytes: "concat (map snd ((i, take C f) # zs)) = f"
      using zs(3) by simp
    from C full have nonempty: "f \<noteq> []" by auto
    have modeq: "length ?f' mod C = length f mod C"
      using full by (simp add: le_mod_geq)
    have lastlen: "length (snd (last ((i, take C f) # zs))) =
        (if length f mod C = 0 then C else length f mod C)"
    proof (cases "zs = []")
      case True
      with zs(4) have "length f = C" using full by auto
      with True show ?thesis by simp
    next
      case False
      with zs(4) modeq show ?thesis by auto
    qed
    from run nums bytes nonempty lastlen show ?thesis by blast
  qed
qed

text \<open>
  Claim C7. For a file of \<open>N\<close> bytes, a chunk size \<open>C > 0\<close>, an expected chunk count of
  exactly \<open>ceil(N/C)\<close> and a visitor that always continues, \<open>forEachChunk\<close> succeeds;
  the chunks it hands to the visitor are numbered \<open>0, 1, 2, \<dots>\<close> up to the count, their
  bytes put together are the file's bytes, and for a file that is not empty the last
  chunk has \<open>N mod C\<close> bytes, or \<open>C\<close> bytes when \<open>C\<close> divides \<open>N\<close>.
\<close>

theorem chunk_stream_reassembles:
  assumes opened: "os_Open filename = Inr content"
    and size: "0 < chunkSize"
    and count: "localChunkCount = (int (length content) + chunkSize - 1) div chunkSize"
    and continues: "\<And>h i c. eachFunc h i c = (True, None)"
  shows "fst (forEachChunk os_Open chunkSize filename localChunkCount eachFunc) = Ok () \<and>
         map fst (snd (forEachChunk os_Open chunkSize filename localChunkCount eachFunc)) =
           map int [0..<nat localChunkCount] \<and>
         concat (map snd (snd (forEachChunk os_Open chunkSize filename localChunkCount eachFunc))) =
           content \<and>
         (content = [] \<and>
            snd (forEachChunk os_Open chunkSize filename localChunkCount eachFunc) = [] \<or>
          content \<noteq> [] \<and>
          snd (forEachChunk os_Open chunkSize filename localChunkCount eachFunc) \<noteq> [] \<and>
          int (length (snd (last
             (snd (forEachChunk os_Open chunkSize filename localChunkCount eachFunc))))) =
            (if int (length content) mod chunkSize = 0 then chunkSize
             else int (length content) mod chunkSize))"
proof -
  define C where "C = nat chunkSize"
  with size have C: "0 < C" and cs: "chunkSize = int C" by simp_all
  have visitor: "eachFunc = (\<lambda>h i c. (True, None))"
    by (intro ext) (rule continues)
  have e: "int (length content + C - 1) = int (length content) + int C - 1"
    using C by simp
  have n: "localChunkCount = 0 + int ((length content + C - 1) div C)"
    unfolding count cs zdiv_int e by simp
  from loop_exact [OF C n, of filename "[]"]
  obtain zs where zs:
    "forEachChunk_loop filename (\<lambda>h i c. (True, None)) (int C) localChunkCount 0 content [] =
       (Ok (), [] @ zs)"
    "map fst zs = map (\<lambda>k. 0 + int k) [0..<(length content + C - 1) div C]"
    "concat (map snd zs) = content"
    "content = [] \<and> zs = [] \<or>
     content \<noteq> [] \<and> zs \<noteq> [] \<and>
     length (snd (last zs)) = (if length content mod C = 0 then C else length content mod C)"
    by blast
  have run: "forEachChunk os_Open chunkSize filename localChunkCount eachFunc = (Ok (), zs)"
    using opened size zs(1) by (simp add: forEachChunk_def visitor cs)
  have nums: "map fst zs = map int [0..<nat localChunkCount]"
    using zs(2) n by simp
  from zs(4) have lastlen: "content = [] \<and> zs = [] \<or>
     content \<noteq> [] \<and> zs \<noteq> [] \<and>
     int (length (snd (last zs))) =
       (if int (length content) mod chunkSize = 0 then chunkSize
        else int (length content) mod chunkSize)"
    unfolding cs by (auto simp: zmod_int)
  show ?thesis
    unfolding run using nums zs(3) lastlen by simp
qed

theorem chunk_stream_reassembles_witness:
  "(0::int) < 2 \<and> (3::int) = (int (length ''abcde'') + 2 - 1) div 2 \<and>
   forEachChunk (\<lambda>path. Inr ''abcde'') 2 ''f'' 3 (\<lambda>h i c. (True, None)) =
     (Ok (), [(0, ''ab''), (1, ''cd''), (2, ''e'')]) \<and>
   fst (forEachChunk (\<lambda>path. Inr ''abcde'') 2 ''f'' 3 (\<lambda>h i c. (True, None))) = Ok () \<and>
   map fst (snd (forEachChunk (\<lambda>path. Inr ''abcde'') 2 ''f'' 3 (\<lambda>h i c. (True, None)))) =
     map int [0..<nat 3] \<and>
   concat (map snd (snd (forEachChunk (\<lambda>path. Inr ''abcde'') 2 ''f'' 3 (\<lambda>h i c. (True, None))))) =
     ''abcde''"
proof -
  have size: "(0::int) < 2" by simp
  have count: "(3::int) = (int (length ''abcde'') + 2 - 1) div 2" by simp
  have run: "forEachChunk (\<lambda>path. Inr ''abcde'') 2 ''f'' 3 (\<lambda>h i c. (True, None)) =
     (Ok (), [(0, ''ab''), (1, ''cd''), (2, ''e'')])"
    by code_simp
  note main = chunk_stream_reassembles
         [where os_Open = "\<lambda>path. Inr ''abcde''" and filename = "''f''"
            and content = "''abcde''" and chunkSize = 2 and localChunkCount = 3
            and eachFunc = "\<lambda>h i c. (True, None)", OF refl size count refl]
  from main [THEN conjunct1] main [THEN conjunct2, THEN conjunct1]
       main [THEN conjunct2, THEN conjunct2, THEN conjunct1] size count run
  show ?thesis by (intro conjI)
qed

section \<open>Reading past the end of the file\<close>

text \<open>
  A read that starts at the end of the file brings no bytes and \<open>io.EOF\<close>, not
  \<open>io.ErrUnexpectedEOF\<close>, so it falls into the branch for every other read error,
  on the last expected chunk and before it alike.
\<close>

lemma read_at_end_is_generic_error:
  "i < localChunkCount \<Longrightarrow> 0 < chunkSize \<Longrightarrow>
   forEachChunk_loop filename eachFunc chunkSize localChunkCount i [] yielded =
     (Err (''an error occured while reading 0 bytes from the file '' @ filename @ '': EOF''),
      yielded)"
  by (subst forEachChunk_loop.simps)
     (simp add: io_ReadAtLeast_def readFailure_def ReadErr_text_def show_nat_small)

text \<open>
  Claim C4. The source's comment gives the intent: a read that does not fill the buffer,
  on a chunk that is not the last, means the files differ. The code tests for
  \<open>io.ErrUnexpectedEOF\<close> only. A file of 4 bytes read in chunks of 2 with 3 chunks
  or 4 chunks expected (more than \<open>ceil(4/2)\<close>) yields two full chunks; the third
  read brings 0 bytes, on the last expected chunk or before it, and the stream fails with
  the generic read error, not with the unexpected-EOF error. (A file of 5 bytes, whose
  third read brings 1 byte, does fail with the unexpected-EOF error.)
\<close>

theorem read_past_end_gives_generic_error:
  "(int (length ''abcd'') + 2 - 1) div 2 < (3::int) \<and>
   forEachChunk (\<lambda>path. Inr ''abcd'') 2 ''f'' 4 (\<lambda>h i c. (True, None)) =
     (Err ''an error occured while reading 0 bytes from the file f: EOF'',
      [(0, ''ab''), (1, ''cd'')]) \<and>
   forEachChunk (\<lambda>path. Inr ''abcd'') 2 ''f'' 3 (\<lambda>h i c. (True, None)) =
     (Err ''an error occured while reading 0 bytes from the file f: EOF'',
      [(0, ''ab''), (1, ''cd'')]) \<and>
   forEachChunk (\<lambda>path. Inr ''abcde'') 2 ''f'' 4 (\<lambda>h i c. (True, None)) =
     (Err ''nexpeced EOF while reading the file f'', [(0, ''ab''), (1, ''cd'')])"
  by code_simp

end
